theory Spec2Isabelle
  imports Main "HOL-Library.Word"
begin

section \<open>Data model\<close>

text \<open>
  The repository holds several revisions of \<^verbatim>\<open>main.go\<close>. The long-running listener
  (pid-file revision, \<^verbatim>\<open>src/unnamed/part_003\<close>; the lock-file revision
  \<^verbatim>\<open>part_002\<close> has the same routing code) is modelled under the source's names. The
  one-shot revision (\<^verbatim>\<open>src/main.go\<close>) reuses those names with the suffix
  \<open>_oneshot\<close>.
\<close>

record Rule =
  Pattern :: string
  ProfileDirectory :: string

record 're compiledRule =
  re :: 're
  profileDirectory :: string

text \<open>
  \<^verbatim>\<open>Config\<close> of the one-shot revision has three fields; the listener revisions add the
  strategy, the log level and the two unexported fields filled by \<^verbatim>\<open>loadConfig\<close>.
  \<^verbatim>\<open>logrus.Level\<close> is a \<^verbatim>\<open>uint32\<close>.
\<close>

record Config_oneshot =
  ChromeAppPath :: string
  DefaultProfileDirectory :: string
  Rules :: "Rule list"

record 're Config = Config_oneshot +
  StrategyForUnknownUrls :: string
  LogLevel :: string
  compiledRules :: "'re compiledRule list"
  parsedLogLevel :: "32 word"

definition StrategyForUnknownUrlsUseBrowserDefault :: string where
  "StrategyForUnknownUrlsUseBrowserDefault = ''use-browser-default''"

definition StrategyForUnknownUrlsUseDefaultProfile :: string where
  "StrategyForUnknownUrlsUseDefaultProfile = ''use-default-profile''"

definition pidFilePath :: string where
  "pidFilePath = ''/tmp/chrome-profile-router.pid''"

definition logFilePath :: string where
  "logFilePath = ''/tmp/chrome-profile-router.log''"

subsection \<open>External collaborators\<close>

text \<open>
  The Go standard library, logrus and the operating system are not part of the
  repository. Every function of theirs that the code calls is a field of this record, so
  that each theorem holds for whatever they compute:
  \<^item> \<open>regexp_Compile p\<close> is \<^verbatim>\<open>regexp.Compile(p)\<close>, \<open>None\<close> when it returns an error;
  \<^item> \<open>regexp_MatchString r s\<close> is \<^verbatim>\<open>r.MatchString(s)\<close> (Go's unanchored search);
  \<^item> \<open>url_Parse s\<close> is \<^verbatim>\<open>url.Parse(s)\<close>: \<open>None\<close> on error, else the \<^verbatim>\<open>Scheme\<close> field;
  \<^item> \<open>logrus_ParseLevel\<close> is \<^verbatim>\<open>logrus.ParseLevel\<close>, \<open>None\<close> on error;
  \<^item> \<open>strconv_Atoi\<close>, \<open>strconv_Itoa\<close> are the decimal conversions;
  \<^item> \<open>cmd_Run name args\<close> is \<^verbatim>\<open>exec.Command(name, args...).Run()\<close>: \<open>None\<close> when
    the command ran and exited with status 0, else the error text.
\<close>

record 're ext =
  regexp_Compile :: "string \<Rightarrow> 're option"
  regexp_MatchString :: "'re \<Rightarrow> string \<Rightarrow> bool"
  url_Parse :: "string \<Rightarrow> string option"
  logrus_ParseLevel :: "string \<Rightarrow> 32 word option"
  strconv_Atoi :: "string \<Rightarrow> int option"
  strconv_Itoa :: "int \<Rightarrow> string"
  cmd_Run :: "string \<Rightarrow> string list \<Rightarrow> string option"

text \<open>\<^verbatim>\<open>strings.HasPrefix(s, prefix)\<close>, as the library defines it.\<close>

definition HasPrefix :: "string \<Rightarrow> string \<Rightarrow> bool" where
  "HasPrefix s p = (length p \<le> length s \<and> take (length p) s = p)"

section \<open>Loading the configuration and compiling the rules\<close>

text \<open>
  Every \<^verbatim>\<open>return cfg, fmt.Errorf(...)\<close> of \<^verbatim>\<open>loadConfig\<close> is a constructor; the two
  rule errors carry the loop index \<open>i\<close> that the message prints with \<^verbatim>\<open>%d\<close>.
\<close>

datatype error =
    OpenConfig
  | ReadConfig
  | ParseConfigJSON
  | RuleInvalid nat
  | RuleCompileRegexp nat
  | ParseLogLevel

text \<open>
  What \<^verbatim>\<open>os.Open\<close>, \<^verbatim>\<open>io.ReadAll\<close> and \<^verbatim>\<open>json.Unmarshal\<close> deliver for the
  configuration file: one of the three failures, or the decoded structure.
\<close>

datatype 'c config_source = OpenFails | ReadFails | JSONFails | Parsed 'c

text \<open>
  The loop \<^verbatim>\<open>for i, r := range cfg.Rules\<close> with its two variables: the index \<open>i\<close> and
  the slice \<open>cr\<close> built by \<^verbatim>\<open>append\<close>.
\<close>

fun compileRules ::
  "'re ext \<Rightarrow> nat \<Rightarrow> Rule list \<Rightarrow> 're compiledRule list \<Rightarrow> error + 're compiledRule list"
where
  "compileRules L i [] cr = Inr cr"
| "compileRules L i (r # rs) cr =
     (if Pattern r = [] \<or> ProfileDirectory r = [] then Inl (RuleInvalid i)
      else case regexp_Compile L (Pattern r) of
             None \<Rightarrow> Inl (RuleCompileRegexp i)
           | Some x \<Rightarrow>
               compileRules L (Suc i) rs (cr @ [\<lparr>re = x, profileDirectory = ProfileDirectory r\<rparr>]))"

text \<open>The two assignments of defaults after \<^verbatim>\<open>json.Unmarshal\<close>, common to all revisions.\<close>

definition applyDefaults :: "'a Config_oneshot_scheme \<Rightarrow> 'a Config_oneshot_scheme" where
  "applyDefaults cfg =
     (let cfg = (if ChromeAppPath cfg = [] then cfg\<lparr>ChromeAppPath := ''/Applications/Google Chrome.app''\<rparr> else cfg);
          cfg = (if DefaultProfileDirectory cfg = [] then cfg\<lparr>DefaultProfileDirectory := ''Default''\<rparr> else cfg)
      in cfg)"

text \<open>
  \<^verbatim>\<open>loadConfig\<close> of the listener revisions. On an error Go returns the partly filled
  \<open>cfg\<close> next to the error; \<^verbatim>\<open>cfg.compiledRules\<close> is assigned only after the loop, and
  \<^verbatim>\<open>main\<close> discards \<open>cfg\<close> and exits, so the model returns the error alone.
\<close>

definition loadConfig :: "'re ext \<Rightarrow> 're Config config_source \<Rightarrow> error + 're Config" where
  "loadConfig L src =
     (case src of
        OpenFails \<Rightarrow> Inl OpenConfig
      | ReadFails \<Rightarrow> Inl ReadConfig
      | JSONFails \<Rightarrow> Inl ParseConfigJSON
      | Parsed cfg0 \<Rightarrow>
          (let cfg = applyDefaults cfg0 in
           case compileRules L 0 (Rules cfg) [] of
             Inl e \<Rightarrow> Inl e
           | Inr cr \<Rightarrow>
               (let cfg = cfg\<lparr>compiledRules := cr\<rparr>;
                    cfg = (if LogLevel cfg = [] then cfg\<lparr>LogLevel := ''info''\<rparr> else cfg)
                in case logrus_ParseLevel L (LogLevel cfg) of
                     None \<Rightarrow> Inl ParseLogLevel
                   | Some lvl \<Rightarrow> Inr (cfg\<lparr>parsedLogLevel := lvl\<rparr>))))"

text \<open>\<^verbatim>\<open>loadConfig\<close> of the one-shot revision returns the rules beside the configuration.\<close>

definition loadConfig_oneshot ::
  "'re ext \<Rightarrow> Config_oneshot config_source \<Rightarrow> error + (Config_oneshot \<times> 're compiledRule list)"
where
  "loadConfig_oneshot L src =
     (case src of
        OpenFails \<Rightarrow> Inl OpenConfig
      | ReadFails \<Rightarrow> Inl ReadConfig
      | JSONFails \<Rightarrow> Inl ParseConfigJSON
      | Parsed cfg0 \<Rightarrow>
          (let cfg = applyDefaults cfg0 in
           case compileRules L 0 (Rules cfg) [] of
             Inl e \<Rightarrow> Inl e
           | Inr cr \<Rightarrow> Inr (cfg, cr)))"

section \<open>Routing\<close>

text \<open>
  \<^verbatim>\<open>chooseProfile(urlStr, compiled, fallback)\<close> of the one-shot revision: the first rule
  whose expression matches decides, otherwise the fallback.
\<close>

fun chooseProfile_oneshot ::
  "'re ext \<Rightarrow> string \<Rightarrow> 're compiledRule list \<Rightarrow> string \<Rightarrow> string"
where
  "chooseProfile_oneshot L urlStr [] fallback = fallback"
| "chooseProfile_oneshot L urlStr (r # rs) fallback =
     (if regexp_MatchString L (re r) urlStr then profileDirectory r
      else chooseProfile_oneshot L urlStr rs fallback)"

text \<open>
  \<^verbatim>\<open>chooseProfile(urlStr, config)\<close> of the listener revisions runs the same loop
  over \<^verbatim>\<open>config.compiledRules\<close>; \<open>chooseProfile_loop\<close> is that loop, \<open>None\<close> when
  it ends without a \<^verbatim>\<open>return\<close>. After the loop the function returns the default
  profile when the strategy is \<^verbatim>\<open>use-default-profile\<close>, and the empty string in every
  other case.
\<close>

fun chooseProfile_loop ::
  "'re ext \<Rightarrow> string \<Rightarrow> 're compiledRule list \<Rightarrow> string option"
where
  "chooseProfile_loop L urlStr [] = None"
| "chooseProfile_loop L urlStr (r # rs) =
     (if regexp_MatchString L (re r) urlStr then Some (profileDirectory r)
      else chooseProfile_loop L urlStr rs)"

definition chooseProfile :: "'re ext \<Rightarrow> string \<Rightarrow> 're Config \<Rightarrow> string" where
  "chooseProfile L urlStr config =
     (case chooseProfile_loop L urlStr (compiledRules config) of
        Some p \<Rightarrow> p
      | None \<Rightarrow>
          if StrategyForUnknownUrls config = StrategyForUnknownUrlsUseDefaultProfile
          then DefaultProfileDirectory config
          else [])"

section \<open>Launching\<close>

text \<open>
  \<^verbatim>\<open>openInChrome\<close> builds the argument list of \<^verbatim>\<open>open\<close> and runs the command.
  \<open>openInChrome_args\<close> is the list \<open>args\<close> at the call of \<^verbatim>\<open>exec.Command\<close>; when
  \<^verbatim>\<open>url.Parse\<close> fails the URL is kept as it is.
\<close>

definition openInChrome_args :: "'re ext \<Rightarrow> string \<Rightarrow> string \<Rightarrow> string \<Rightarrow> string list" where
  "openInChrome_args L chromeAppPath profileDir urlStr =
     (let urlStr = (case url_Parse L urlStr of
                      None \<Rightarrow> urlStr
                    | Some scheme \<Rightarrow>
                        if scheme = [] \<and> \<not> HasPrefix urlStr ''http''
                        then ''http://'' @ urlStr else urlStr);
          args = [''-na'', chromeAppPath, ''--args''];
          args = (if profileDir \<noteq> [] then args @ [''--profile-directory='' @ profileDir] else args);
          args = args @ [urlStr]
      in args)"

definition openInChrome :: "'re ext \<Rightarrow> string \<Rightarrow> string \<Rightarrow> string \<Rightarrow> string option" where
  "openInChrome L chromeAppPath profileDir urlStr =
     cmd_Run L ''open'' (openInChrome_args L chromeAppPath profileDir urlStr)"

text \<open>The one-shot revision always formats the profile argument.\<close>

definition openInChrome_args_oneshot ::
  "'re ext \<Rightarrow> string \<Rightarrow> string \<Rightarrow> string \<Rightarrow> string list"
where
  "openInChrome_args_oneshot L chromeAppPath profileDir urlStr =
     (let urlStr = (case url_Parse L urlStr of
                      None \<Rightarrow> urlStr
                    | Some scheme \<Rightarrow>
                        if scheme = [] \<and> \<not> HasPrefix urlStr ''http''
                        then ''http://'' @ urlStr else urlStr)
      in [''-na'', chromeAppPath, ''--args'', ''--profile-directory='' @ profileDir, urlStr])"

definition openInChrome_oneshot :: "'re ext \<Rightarrow> string \<Rightarrow> string \<Rightarrow> string \<Rightarrow> string option" where
  "openInChrome_oneshot L chromeAppPath profileDir urlStr =
     cmd_Run L ''open'' (openInChrome_args_oneshot L chromeAppPath profileDir urlStr)"

subsection \<open>Observable events\<close>

text \<open>
  What the process does to the outside, in order: the lines it hands to the logger or
  writes to standard error, and the start and the return of every \<^verbatim>\<open>cmd.Run()\<close>.
  \<^item> \<open>Routing url profile\<close>: the line \<^verbatim>\<open>Routing: %s  ->  profile-directory=%q\<close>
    (\<^verbatim>\<open>logger.Debugf\<close> in the listener, standard error in the one-shot revision);
  \<^item> \<open>SpawnStart name args\<close>, \<open>SpawnEnd result\<close>: the command is started; it has returned;
  \<^item> \<open>LaunchFailed err\<close>: the line \<^verbatim>\<open>Failed to open URL in Chrome: %v\<close>
    (\<^verbatim>\<open>logger.Errorf\<close>, respectively standard error);
  \<^item> the remaining constructors are the fixed lines of \<^verbatim>\<open>main\<close>.
  Whether logrus prints a line at the configured level is logrus's business and is not
  modelled: an event is the call of the logger.
\<close>

datatype event =
    Routing string string
  | SpawnStart string "string list"
  | SpawnEnd "string option"
  | LaunchFailed string
  | ErrorLoadingConfig error
  | FailedToOpenLogFile
  | AnotherInstanceRunning
  | FailedToWritePidFile
  | StartListening
  | NoURLsReceived

text \<open>
  \<^verbatim>\<open>processURL\<close> of the listener: decide, log, launch, and log the error if the launch
  failed. It has no other exit: nothing in it returns early, panics or ends the process.
\<close>

definition processURL :: "'re ext \<Rightarrow> string \<Rightarrow> 're Config \<Rightarrow> event list" where
  "processURL L urlStr config =
     (let profile = chooseProfile L urlStr config;
          args = openInChrome_args L (ChromeAppPath config) profile urlStr
      in [Routing urlStr profile, SpawnStart ''open'' args] @
         (case openInChrome L (ChromeAppPath config) profile urlStr of
            None \<Rightarrow> [SpawnEnd None]
          | Some err \<Rightarrow> [SpawnEnd (Some err), LaunchFailed err]))"

text \<open>
  The worker is blocked inside \<^verbatim>\<open>cmd.Run()\<close> while the command runs. The two halves of
  \<^verbatim>\<open>processURL\<close> around that point, for the step model of the dispatcher below.
\<close>

definition processURL_begin :: "'re ext \<Rightarrow> string \<Rightarrow> 're Config \<Rightarrow> event list" where
  "processURL_begin L urlStr config =
     (let profile = chooseProfile L urlStr config
      in [Routing urlStr profile,
          SpawnStart ''open'' (openInChrome_args L (ChromeAppPath config) profile urlStr)])"

definition processURL_end :: "'re ext \<Rightarrow> string \<Rightarrow> 're Config \<Rightarrow> event list" where
  "processURL_end L urlStr config =
     (case openInChrome L (ChromeAppPath config) (chooseProfile L urlStr config) urlStr of
        None \<Rightarrow> [SpawnEnd None]
      | Some err \<Rightarrow> [SpawnEnd (Some err), LaunchFailed err])"

definition processURL_oneshot ::
  "'re ext \<Rightarrow> string \<Rightarrow> Config_oneshot \<Rightarrow> 're compiledRule list \<Rightarrow> event list"
where
  "processURL_oneshot L urlStr config compiledRules_g =
     (let profile = chooseProfile_oneshot L urlStr compiledRules_g (DefaultProfileDirectory config);
          args = openInChrome_args_oneshot L (ChromeAppPath config) profile urlStr
      in [Routing urlStr profile, SpawnStart ''open'' args] @
         (case openInChrome_oneshot L (ChromeAppPath config) profile urlStr of
            None \<Rightarrow> [SpawnEnd None]
          | Some err \<Rightarrow> [SpawnEnd (Some err), LaunchFailed err]))"

section \<open>The logger\<close>

text \<open>
  The listener logs through logrus, which is not part of the repository. Its levels are
  the constants of \<^verbatim>\<open>logrus.Level\<close> (\<^verbatim>\<open>PanicLevel = iota\<close> and so on), and a logger
  with level \<open>lvl\<close> writes an entry of level \<open>level\<close> exactly when
  \<^verbatim>\<open>logger.level() >= level\<close> (\<^verbatim>\<open>IsLevelEnabled\<close>).
\<close>

definition PanicLevel :: "32 word" where "PanicLevel = 0"
definition FatalLevel :: "32 word" where "FatalLevel = 1"
definition ErrorLevel :: "32 word" where "ErrorLevel = 2"
definition WarnLevel :: "32 word" where "WarnLevel = 3"
definition InfoLevel :: "32 word" where "InfoLevel = 4"
definition DebugLevel :: "32 word" where "DebugLevel = 5"
definition TraceLevel :: "32 word" where "TraceLevel = 6"

definition IsLevelEnabled :: "32 word \<Rightarrow> 32 word \<Rightarrow> bool" where
  "IsLevelEnabled lvl level = (level \<le> lvl)"

text \<open>
  The level at which the listener hands an event to the logger: \<^verbatim>\<open>Debugf\<close> for the
  routing line and the line about another instance, \<^verbatim>\<open>Errorf\<close> for a failed launch and
  a failed write of the pid file, \<^verbatim>\<open>Info\<close> for the start. The other events are no
  calls of the logger (standard error, or the command). \<open>logged lvl es\<close> are the events
  of \<open>es\<close> that a logger with level \<open>lvl\<close> writes to its output.
\<close>

fun logLevel :: "event \<Rightarrow> 32 word option" where
  "logLevel (Routing url profile) = Some DebugLevel"
| "logLevel (LaunchFailed err) = Some ErrorLevel"
| "logLevel AnotherInstanceRunning = Some DebugLevel"
| "logLevel FailedToWritePidFile = Some ErrorLevel"
| "logLevel StartListening = Some InfoLevel"
| "logLevel e = None"

definition logged :: "32 word \<Rightarrow> event list \<Rightarrow> event list" where
  "logged lvl es =
     filter (\<lambda>e. case logLevel e of None \<Rightarrow> False | Some level \<Rightarrow> IsLevelEnabled lvl level) es"

text \<open>
  \<^verbatim>\<open>var logger *logrus.Logger = nil\<close>: the global logger is a pointer, \<open>None\<close> while it
  is nil and \<open>Some lvl\<close> once \<^verbatim>\<open>main\<close> has made it and set its level. \<^verbatim>\<open>processURL\<close>
  calls \<^verbatim>\<open>logger.Debugf\<close> first; on the nil logger that call panics, which is the
  result \<open>None\<close> here.
\<close>

definition processURL_global ::
  "'re ext \<Rightarrow> 32 word option \<Rightarrow> string \<Rightarrow> 're Config \<Rightarrow> event list option"
where
  "processURL_global L logger urlStr config =
     (case logger of
        None \<Rightarrow> None
      | Some lvl \<Rightarrow> Some (processURL L urlStr config))"

section \<open>Single instance\<close>

text \<open>
  The part of the operating system that \<^verbatim>\<open>isRunning\<close> and \<^verbatim>\<open>main\<close> touch:
  \<^item> \<open>files path\<close>: the content of the file at \<open>path\<close>, \<open>None\<close> when there is no file;
  \<^item> \<open>readable path\<close>: whether the process can read the file at \<open>path\<close>;
  \<^item> \<open>writable path\<close>: whether the process can open \<open>path\<close> for writing, creating the
    file when there is none;
  \<^item> \<open>write_limit path\<close>: \<open>None\<close> when a write to the file transfers all its bytes;
    \<open>Some n\<close> when a write transfers at most \<open>n\<close> bytes and returns an error if that
    is not all of them (a full disk is \<open>Some 0\<close>);
  \<^item> \<open>close_fails path\<close>: whether closing the file after writing returns an error;
  \<^item> \<open>alive pid\<close>: whether the process (for \<open>pid \<le> 0\<close>: the process group) that
    \<^verbatim>\<open>kill(pid, ...)\<close> addresses exists;
  \<^item> \<open>may_signal pid\<close>: whether this process is permitted to signal it;
  \<^item> \<open>getpid\<close>: \<^verbatim>\<open>os.Getpid()\<close>;
  \<^item> \<open>log_entry e\<close>: the bytes that the formatter of logrus makes of the logger call
    \<open>e\<close> (it puts the time and the level before the message).
\<close>

record os_state =
  files :: "string \<Rightarrow> string option"
  readable :: "string \<Rightarrow> bool"
  writable :: "string \<Rightarrow> bool"
  write_limit :: "string \<Rightarrow> nat option"
  close_fails :: "string \<Rightarrow> bool"
  alive :: "int \<Rightarrow> bool"
  may_signal :: "int \<Rightarrow> bool"
  getpid :: int
  log_entry :: "event \<Rightarrow> string"

text \<open>\<^verbatim>\<open>os.ReadFile(path)\<close>: the content, \<open>None\<close> for an error.\<close>

definition ReadFile :: "os_state \<Rightarrow> string \<Rightarrow> string option" where
  "ReadFile os path = (if readable os path then files os path else None)"

text \<open>
  \<^verbatim>\<open>syscall.Kill(pid, 0)\<close> sends nothing and reports whether it could: \<^verbatim>\<open>ESRCH\<close> when
  there is no such process, \<^verbatim>\<open>EPERM\<close> when the process exists and may not be signalled,
  no error otherwise.
\<close>

datatype errno = ESRCH | EPERM

definition Kill0 :: "os_state \<Rightarrow> int \<Rightarrow> errno option" where
  "Kill0 os pid =
     (if \<not> alive os pid then Some ESRCH
      else if \<not> may_signal os pid then Some EPERM
      else None)"

definition isRunning :: "'re ext \<Rightarrow> os_state \<Rightarrow> string \<Rightarrow> bool" where
  "isRunning L os path =
     (case ReadFile os path of
        None \<Rightarrow> False
      | Some data \<Rightarrow>
          (case strconv_Atoi L data of
             None \<Rightarrow> False
           | Some pid \<Rightarrow>
               (case Kill0 os pid of
                  None \<Rightarrow> True
                | Some err \<Rightarrow> False)))"

text \<open>
  Writing. \<open>written os path data\<close> are the bytes that one write of \<open>data\<close> to the file
  transfers, and \<open>write_ok\<close> says that the write returns no error.
  \<^verbatim>\<open>os.WriteFile\<close> opens with \<^verbatim>\<open>O_WRONLY|O_CREATE|O_TRUNC\<close>, writes and closes:
  when the open fails nothing changes; otherwise the file holds what the write
  transferred, and the call succeeds when neither the write nor the close returned an
  error. \<open>appendFile\<close> is a write to a file that is open with \<^verbatim>\<open>O_APPEND\<close>.
\<close>

definition written :: "os_state \<Rightarrow> string \<Rightarrow> string \<Rightarrow> string" where
  "written os path data = (case write_limit os path of None \<Rightarrow> data | Some n \<Rightarrow> take n data)"

definition write_ok :: "os_state \<Rightarrow> string \<Rightarrow> string \<Rightarrow> bool" where
  "write_ok os path data = (case write_limit os path of None \<Rightarrow> True | Some n \<Rightarrow> length data \<le> n)"

definition WriteFile :: "os_state \<Rightarrow> string \<Rightarrow> string \<Rightarrow> bool \<times> os_state" where
  "WriteFile os path data =
     (if \<not> writable os path then (False, os)
      else (write_ok os path data \<and> \<not> close_fails os path,
            os\<lparr>files := (files os)(path \<mapsto> written os path data)\<rparr>))"

definition appendFile :: "os_state \<Rightarrow> string \<Rightarrow> string \<Rightarrow> os_state" where
  "appendFile os path data =
     os\<lparr>files := (files os)(path \<mapsto>
            (case files os path of None \<Rightarrow> [] | Some old \<Rightarrow> old) @ written os path data)\<rparr>"

text \<open>
  \<^verbatim>\<open>os.OpenFile(logFilePath, os.O_CREATE|os.O_WRONLY|os.O_APPEND, 0644)\<close>: \<open>None\<close> when
  the open fails; otherwise the file exists afterwards, empty if it was not there.
\<close>

definition openLogFile :: "os_state \<Rightarrow> os_state option" where
  "openLogFile os =
     (if \<not> writable os logFilePath then None
      else Some (os\<lparr>files := (files os)(logFilePath \<mapsto>
                    (case files os logFilePath of None \<Rightarrow> [] | Some old \<Rightarrow> old))\<rparr>))"

text \<open>
  The logger's output is the log file: each event that the logger writes at its level
  appends its entry. logrus does not pass an error of that write on to its caller (it
  prints a note on standard error, which is left out here).
\<close>

definition logOutput :: "os_state \<Rightarrow> 32 word \<Rightarrow> event list \<Rightarrow> os_state" where
  "logOutput os lvl es =
     fold (\<lambda>e os. appendFile os logFilePath (log_entry os e)) (logged lvl es) os"

text \<open>
  \<^verbatim>\<open>main\<close> of the pid-file revision up to the start of the worker: either the process
  exits with a status, or it goes on to listen with the loaded configuration and the
  logger it has made. The result carries the file system afterwards and the lines
  handed to standard error or to the logger. (The deferred \<^verbatim>\<open>os.Remove\<close> runs only if
  \<^verbatim>\<open>C.Run()\<close> returns; \<^verbatim>\<open>os.Exit\<close> skips it.)
\<close>

datatype 're startup = Exit nat | Listen "'re Config" "32 word option"

definition main ::
  "'re ext \<Rightarrow> 're Config config_source \<Rightarrow> os_state \<Rightarrow> 're startup \<times> os_state \<times> event list"
where
  "main L src os =
     (case loadConfig L src of
        Inl err \<Rightarrow> (Exit 2, os, [ErrorLoadingConfig err])
      | Inr config \<Rightarrow>
          (case openLogFile os of
             None \<Rightarrow> (Exit 2, os, [FailedToOpenLogFile])
           | Some os \<Rightarrow>
               (let lvl = parsedLogLevel config in
                if isRunning L os pidFilePath
                then (Exit 0, logOutput os lvl [AnotherInstanceRunning], [AnotherInstanceRunning])
                else
                  (let (ok, os) = WriteFile os pidFilePath (strconv_Itoa L (getpid os)) in
                   if \<not> ok
                   then (Exit 2, logOutput os lvl [FailedToWritePidFile], [FailedToWritePidFile])
                   else (Listen config (Some lvl),
                         logOutput os lvl [StartListening], [StartListening])))))"

section \<open>The dispatcher of the listener\<close>

text \<open>
  \<^verbatim>\<open>var urlListener chan string = make(chan string)\<close>: the channel is made without a
  capacity, so its buffer holds no element.
\<close>

definition urlListener_cap :: nat where
  "urlListener_cap = 0"

text \<open>
  The state of the two execution contexts and the channel between them:
  \<^item> \<open>pending\<close>: the URLs of the events the operating system has for the process, in the
    order of their \<^verbatim>\<open>HandleURL\<close> calls; the call for the head is the one that is running
    or comes next, and the notifier is inside it until its send completes;
  \<^item> \<open>urlListener\<close>: the elements buffered in the channel;
  \<^item> \<open>worker\<close>: \<open>None\<close> while the worker goroutine waits in
    \<^verbatim>\<open>for url := range urlListener\<close>; \<open>Some u\<close> while it is inside
    \<^verbatim>\<open>processURL(u, config)\<close>, blocked in \<^verbatim>\<open>cmd.Run()\<close>;
  \<^item> \<open>trace\<close>: the events so far.
\<close>

record dstate =
  pending :: "string list"
  urlListener :: "string list"
  worker :: "string option"
  trace :: "event list"

text \<open>
  The atomic steps, by Go's channel rules with the capacity as a parameter:
  \<^item> \<open>Send\<close>: the send \<^verbatim>\<open>urlListener <- C.GoString(u)\<close> of \<^verbatim>\<open>HandleURL\<close> completes.
    It hands the value to the worker if the worker waits in its receive; else it puts
    the value into the buffer if the buffer has room; else it cannot complete (the
    step is \<open>None\<close>: the caller of \<^verbatim>\<open>HandleURL\<close> stays blocked);
  \<^item> \<open>Recv\<close>: the waiting worker takes the oldest buffered value;
  \<^item> \<open>Finish\<close>: \<^verbatim>\<open>cmd.Run()\<close> returns and \<^verbatim>\<open>processURL\<close> ends; the worker is back in
    its receive.
  A worker that receives a URL runs \<^verbatim>\<open>processURL\<close> up to the start of the command.
\<close>

datatype action = Send | Recv | Finish

definition step ::
  "'re ext \<Rightarrow> 're Config \<Rightarrow> nat \<Rightarrow> action \<Rightarrow> dstate \<Rightarrow> dstate option"
where
  "step L config cap a s =
     (case a of
        Send \<Rightarrow>
          (case pending s of
             [] \<Rightarrow> None
           | u # us \<Rightarrow>
               if worker s = None \<and> urlListener s = []
               then Some (s\<lparr>pending := us, worker := Some u,
                             trace := trace s @ processURL_begin L u config\<rparr>)
               else if length (urlListener s) < cap
               then Some (s\<lparr>pending := us, urlListener := urlListener s @ [u]\<rparr>)
               else None)
      | Recv \<Rightarrow>
          (case urlListener s of
             [] \<Rightarrow> None
           | u # us \<Rightarrow>
               if worker s = None
               then Some (s\<lparr>urlListener := us, worker := Some u,
                             trace := trace s @ processURL_begin L u config\<rparr>)
               else None)
      | Finish \<Rightarrow>
          (case worker s of
             None \<Rightarrow> None
           | Some u \<Rightarrow>
               Some (s\<lparr>worker := None, trace := trace s @ processURL_end L u config\<rparr>)))"

text \<open>A schedule is a list of steps; it runs as long as each step can be taken.\<close>

fun run ::
  "'re ext \<Rightarrow> 're Config \<Rightarrow> nat \<Rightarrow> action list \<Rightarrow> dstate \<Rightarrow> dstate option"
where
  "run L config cap [] s = Some s"
| "run L config cap (a # as) s =
     (case step L config cap a s of
        None \<Rightarrow> None
      | Some s' \<Rightarrow> run L config cap as s')"

definition init :: "string list \<Rightarrow> dstate" where
  "init urls = \<lparr>pending = urls, urlListener = [], worker = None, trace = []\<rparr>"

definition quiescent :: "dstate \<Rightarrow> bool" where
  "quiescent s = (pending s = [] \<and> urlListener s = [] \<and> worker s = None)"

text \<open>
  Launches do not overlap in a trace when no command is started while another one has
  not returned; the flag says whether a command is running.
\<close>

fun serial :: "bool \<Rightarrow> event list \<Rightarrow> bool" where
  "serial running [] = True"
| "serial running (SpawnStart name args # es) = (\<not> running \<and> serial True es)"
| "serial running (SpawnEnd r # es) = (running \<and> serial False es)"
| "serial running (e # es) = serial running es"

fun launches :: "event list \<Rightarrow> string list list" where
  "launches [] = []"
| "launches (SpawnStart name args # es) = args # launches es"
| "launches (e # es) = launches es"

fun failures :: "event list \<Rightarrow> string list" where
  "failures [] = []"
| "failures (LaunchFailed err # es) = err # failures es"
| "failures (e # es) = failures es"

section \<open>The one-shot revision\<close>

text \<open>
  \<^verbatim>\<open>time.After(4 * time.Second)\<close>; a \<^verbatim>\<open>time.Duration\<close> counts nanoseconds.
\<close>

definition time_Second :: nat where
  "time_Second = 1000000000"

definition timeout :: nat where
  "timeout = 4 * time_Second"

text \<open>
  \<^verbatim>\<open>main\<close> of the one-shot revision: the events and the exit status. \<open>arrivals\<close> are
  the \<^verbatim>\<open>HandleURL\<close> calls in their order, each with the time of the call in nanoseconds
  after the timer was set. The \<^verbatim>\<open>select\<close> takes the case that is ready first; when the
  URL and the timer are ready at the same instant Go chooses either, and \<open>tie\<close> is that
  choice. Both cases end in \<^verbatim>\<open>os.Exit\<close>, so no later URL is received.
\<close>

definition main_oneshot ::
  "'re ext \<Rightarrow> Config_oneshot config_source \<Rightarrow> (nat \<times> string) list \<Rightarrow> bool \<Rightarrow> event list \<times> nat"
where
  "main_oneshot L src arrivals tie =
     (case loadConfig_oneshot L src of
        Inl err \<Rightarrow> ([ErrorLoadingConfig err], 2)
      | Inr (config, compiledRules_g) \<Rightarrow>
          (case arrivals of
             [] \<Rightarrow> ([NoURLsReceived], 1)
           | (t, url) # later \<Rightarrow>
               if t < timeout \<or> (t = timeout \<and> tie)
               then (processURL_oneshot L url config compiledRules_g, 0)
               else ([NoURLsReceived], 1)))"

section \<open>A sample environment\<close>

text \<open>
  Concrete collaborators on which the theorems below are instantiated. The sample
  expression engine knows literal patterns only: a pattern without metacharacters
  compiles to itself and matches where it occurs as a substring, as it does in Go; the
  pattern \<^verbatim>\<open>(\<close> does not compile, as in Go. The sample URL parser knows the schemes
  \<^verbatim>\<open>http\<close> and \<^verbatim>\<open>https\<close>, and the sample \<^verbatim>\<open>open\<close> fails on the URL
  \<^verbatim>\<open>http://fail\<close>.
\<close>

fun Contains :: "string \<Rightarrow> string \<Rightarrow> bool" where
  "Contains [] substr = (substr = [])"
| "Contains (c # s) substr = (HasPrefix (c # s) substr \<or> Contains s substr)"

definition sample_ext :: "string ext" where
  "sample_ext =
     \<lparr>regexp_Compile = (\<lambda>p. if p = ''('' then None else Some p),
      regexp_MatchString = (\<lambda>r s. Contains s r),
      url_Parse = (\<lambda>s. if HasPrefix s ''https://'' then Some ''https''
                        else if HasPrefix s ''http://'' then Some ''http''
                        else Some []),
      logrus_ParseLevel = (\<lambda>s. if s = ''info'' then Some 4 else if s = ''debug'' then Some 5
                                else if s = ''fatal'' then Some 1 else None),
      strconv_Atoi = (\<lambda>s. if s = ''4242'' then Some 4242 else if s = ''77'' then Some 77 else None),
      strconv_Itoa = (\<lambda>n. if n = 4242 then ''4242'' else if n = 77 then ''77'' else ''0''),
      cmd_Run = (\<lambda>name args. if last args = ''http://fail'' then Some ''exit status 1'' else None)\<rparr>"

definition sample_json :: "string Config" where
  "sample_json =
     \<lparr>ChromeAppPath = [],
      DefaultProfileDirectory = ''Work'',
      Rules = [\<lparr>Pattern = ''github'', ProfileDirectory = ''Work''\<rparr>,
               \<lparr>Pattern = ''git'', ProfileDirectory = ''Personal''\<rparr>],
      StrategyForUnknownUrls = ''use-default-profile'',
      LogLevel = [],
      compiledRules = [],
      parsedLogLevel = 0\<rparr>"

definition sample_config :: "string Config" where
  "sample_config =
     \<lparr>ChromeAppPath = ''/Applications/Google Chrome.app'',
      DefaultProfileDirectory = ''Work'',
      Rules = [\<lparr>Pattern = ''github'', ProfileDirectory = ''Work''\<rparr>,
               \<lparr>Pattern = ''git'', ProfileDirectory = ''Personal''\<rparr>],
      StrategyForUnknownUrls = ''use-default-profile'',
      LogLevel = ''info'',
      compiledRules = [\<lparr>re = ''github'', profileDirectory = ''Work''\<rparr>,
                       \<lparr>re = ''git'', profileDirectory = ''Personal''\<rparr>],
      parsedLogLevel = 4\<rparr>"

definition sample_os :: os_state where
  "sample_os =
     \<lparr>files = (\<lambda>p. if p = pidFilePath then Some ''4242'' else None),
      readable = (\<lambda>p. True),
      writable = (\<lambda>p. True),
      write_limit = (\<lambda>p. None),
      close_fails = (\<lambda>p. False),
      alive = (\<lambda>pid. pid = 4242),
      may_signal = (\<lambda>pid. True),
      getpid = 77,
      log_entry = (\<lambda>e. ''entry;'')\<rparr>"

section \<open>Predicates of the properties\<close>

text \<open>
  The conditions under which the loop of \<^verbatim>\<open>loadConfig\<close> returns an error for a rule:
  the first test of the loop body, and the failure of \<^verbatim>\<open>regexp.Compile\<close>. \<open>ruleError\<close>
  is the error for the rule at index \<open>i\<close>, and \<open>compiledFrom\<close> relates a rule to the
  compiled rule made from it.
\<close>

definition emptyField :: "Rule \<Rightarrow> bool" where
  "emptyField r = (Pattern r = [] \<or> ProfileDirectory r = [])"

definition invalidRule :: "'re ext \<Rightarrow> Rule \<Rightarrow> bool" where
  "invalidRule L r = (emptyField r \<or> regexp_Compile L (Pattern r) = None)"

definition ruleError :: "nat \<Rightarrow> Rule \<Rightarrow> error" where
  "ruleError i r = (if emptyField r then RuleInvalid i else RuleCompileRegexp i)"

definition compiledFrom :: "'re ext \<Rightarrow> Rule \<Rightarrow> 're compiledRule \<Rightarrow> bool" where
  "compiledFrom L r c =
     (regexp_Compile L (Pattern r) = Some (re c) \<and> profileDirectory c = ProfileDirectory r)"

text \<open>
  The log level that \<^verbatim>\<open>loadConfig\<close> parses: \<^verbatim>\<open>info\<close> when the field is empty.
\<close>

definition effectiveLogLevel :: "string \<Rightarrow> string" where
  "effectiveLogLevel l = (if l = [] then ''info'' else l)"

text \<open>
  The rules whose expression matches a URL, in their order, and the profile directories
  of a rule list.
\<close>

definition matching :: "'re ext \<Rightarrow> string \<Rightarrow> 're compiledRule list \<Rightarrow> 're compiledRule list" where
  "matching L urlStr rs = filter (\<lambda>r. regexp_MatchString L (re r) urlStr) rs"

definition ruleProfiles :: "'re compiledRule list \<Rightarrow> string list" where
  "ruleProfiles rs = map profileDirectory rs"

text \<open>
  The listener revisions encode the specification's routing decision in the returned
  string: the empty string stands for "no profile", any other string for that profile.
\<close>

definition decision :: "string \<Rightarrow> string option" where
  "decision profile = (if profile = [] then None else Some profile)"

subsection \<open>More sample inputs\<close>

definition sample_json_oneshot :: Config_oneshot where
  "sample_json_oneshot =
     \<lparr>ChromeAppPath = [],
      DefaultProfileDirectory = [],
      Rules = [\<lparr>Pattern = ''github'', ProfileDirectory = ''Work''\<rparr>,
               \<lparr>Pattern = ''git'', ProfileDirectory = ''Personal''\<rparr>]\<rparr>"

definition sample_config_oneshot :: Config_oneshot where
  "sample_config_oneshot =
     \<lparr>ChromeAppPath = ''/Applications/Google Chrome.app'',
      DefaultProfileDirectory = ''Default'',
      Rules = [\<lparr>Pattern = ''github'', ProfileDirectory = ''Work''\<rparr>,
               \<lparr>Pattern = ''git'', ProfileDirectory = ''Personal''\<rparr>]\<rparr>"

definition sample_rules :: "string compiledRule list" where
  "sample_rules = [\<lparr>re = ''github'', profileDirectory = ''Work''\<rparr>,
                   \<lparr>re = ''git'', profileDirectory = ''Personal''\<rparr>]"

definition sample_json_bad :: Config_oneshot where
  "sample_json_bad =
     \<lparr>ChromeAppPath = [],
      DefaultProfileDirectory = [],
      Rules = [\<lparr>Pattern = ''github'', ProfileDirectory = ''Work''\<rparr>,
               \<lparr>Pattern = ''('', ProfileDirectory = ''Personal''\<rparr>,
               \<lparr>Pattern = [], ProfileDirectory = ''Other''\<rparr>]\<rparr>"

definition sample_json_browser :: "string Config" where
  "sample_json_browser = sample_json\<lparr>StrategyForUnknownUrls := ''use-browser-default''\<rparr>"

definition sample_config_browser :: "string Config" where
  "sample_config_browser = sample_config\<lparr>StrategyForUnknownUrls := ''use-browser-default''\<rparr>"

text \<open>
  Variants of the sample system: the recorded process 4242 is gone; the pid file can
  moreover not be opened for writing; the disk is full; the process 4242 runs but may
  not be signalled; the log file cannot be opened.
\<close>

definition sample_os_stale :: os_state where
  "sample_os_stale = sample_os\<lparr>alive := (\<lambda>pid. False)\<rparr>"

definition sample_os_readonly :: os_state where
  "sample_os_readonly = sample_os_stale\<lparr>writable := (\<lambda>p. p \<noteq> pidFilePath)\<rparr>"

definition sample_os_full :: os_state where
  "sample_os_full = sample_os_stale\<lparr>write_limit := (\<lambda>p. Some 0)\<rparr>"

definition sample_os_eperm :: os_state where
  "sample_os_eperm = sample_os\<lparr>may_signal := (\<lambda>pid. False)\<rparr>"

definition sample_os_nolog :: os_state where
  "sample_os_nolog = sample_os\<lparr>writable := (\<lambda>p. p \<noteq> logFilePath)\<rparr>"

text \<open>The sample configuration with the log level \<^verbatim>\<open>fatal\<close>.\<close>

definition sample_json_fatal :: "string Config" where
  "sample_json_fatal = sample_json\<lparr>LogLevel := ''fatal''\<rparr>"

definition sample_config_fatal :: "string Config" where
  "sample_config_fatal = sample_config\<lparr>LogLevel := ''fatal'', parsedLogLevel := 1\<rparr>"

text \<open>
  The process id that the pid file records, if it is readable and holds a number.
\<close>

definition recorded_pid :: "'re ext \<Rightarrow> os_state \<Rightarrow> int option" where
  "recorded_pid L os =
     (case ReadFile os pidFilePath of
        None \<Rightarrow> None
      | Some data \<Rightarrow> strconv_Atoi L data)"

subsection \<open>Predicates of the dispatcher\<close>

text \<open>
  \<open>dispatched urls done s\<close>: of the URLs \<open>urls\<close> handed in, those in \<open>done\<close> have been
  processed completely and in this order, the next one is with the worker, then come the
  buffered ones and those not yet sent; the trace is the events of the processed URLs
  followed by the first half of the one in progress.
\<close>

definition in_progress :: "dstate \<Rightarrow> string list" where
  "in_progress s = (case worker s of None \<Rightarrow> [] | Some u \<Rightarrow> [u])"

definition dispatched ::
  "'re ext \<Rightarrow> 're Config \<Rightarrow> string list \<Rightarrow> string list \<Rightarrow> dstate \<Rightarrow> bool"
where
  "dispatched L config urls done s =
     (urls = done @ in_progress s @ urlListener s @ pending s
      \<and> trace s = concat (map (\<lambda>u. processURL L u config) done)
                    @ concat (map (\<lambda>u. processURL_begin L u config) (in_progress s)))"

text \<open>The schedule in which each send is followed by the end of the launch.\<close>

fun fifo_schedule :: "string list \<Rightarrow> action list" where
  "fifo_schedule [] = []"
| "fifo_schedule (u # us) = Send # Finish # fifo_schedule us"

text \<open>
  The state after the first of the two URLs \<^verbatim>\<open>ok\<close> and \<^verbatim>\<open>later\<close> has reached the
  worker and its command is running.
\<close>

definition sample_busy :: dstate where
  "sample_busy =
     \<lparr>pending = [''later''], urlListener = [], worker = Some ''ok'',
      trace = [Routing ''ok'' ''Work'',
               SpawnStart ''open'' [''-na'', ''/Applications/Google Chrome.app'', ''--args'',
                                    ''--profile-directory=Work'', ''http://ok''] ]\<rparr>"

text \<open>Every step uses up part of this budget, so every schedule is finite.\<close>

definition budget :: "dstate \<Rightarrow> nat" where
  "budget s = 3 * length (pending s) + 2 * length (urlListener s) + length (in_progress s)"

text \<open>
  The final state for the URLs \<^verbatim>\<open>fail\<close> and \<^verbatim>\<open>later\<close>, the first of which the sample
  \<^verbatim>\<open>open\<close> does not launch.
\<close>

definition sample_final :: dstate where
  "sample_final =
     \<lparr>pending = [], urlListener = [], worker = None,
      trace = [Routing ''fail'' ''Work'',
               SpawnStart ''open'' [''-na'', ''/Applications/Google Chrome.app'', ''--args'',
                                    ''--profile-directory=Work'', ''http://fail''],
               SpawnEnd (Some ''exit status 1''),
               LaunchFailed ''exit status 1'',
               Routing ''later'' ''Work'',
               SpawnStart ''open'' [''-na'', ''/Applications/Google Chrome.app'', ''--args'',
                                    ''--profile-directory=Work'', ''http://later''],
               SpawnEnd None]\<rparr>"

section \<open>Rule compilation\<close>

lemma compileRules_Inr:
  "(compileRules L i rs cr = Inr cr') =
   ((\<forall>r \<in> set rs. \<not> invalidRule L r) \<and> (\<exists>new. cr' = cr @ new \<and> list_all2 (compiledFrom L) rs new))"
proof (induction rs arbitrary: i cr)
  case Nil
  then show ?case by auto
next
  case (Cons r rs)
  show ?case
  proof (cases "invalidRule L r")
    case True
    then show ?thesis
      by (auto simp: invalidRule_def emptyField_def split: option.splits)
  next
    case False
    then obtain x where x: "regexp_Compile L (Pattern r) = Some x"
      and ne: "Pattern r \<noteq> []" "ProfileDirectory r \<noteq> []"
      by (auto simp: invalidRule_def emptyField_def)
    let ?c = "\<lparr>re = x, profileDirectory = ProfileDirectory r\<rparr>"
    have step: "compileRules L i (r # rs) cr = compileRules L (Suc i) rs (cr @ [?c])"
      using x ne by simp
    have cf: "compiledFrom L r c = (c = ?c)" for c
      using x by (cases c) (auto simp: compiledFrom_def)
    show ?thesis
      unfolding step Cons.IH using False
      by (auto simp: list_all2_Cons1 cf)
  qed
qed

lemma compileRules_Inl:
  "(compileRules L i rs cr = Inl e) =
   (\<exists>k < length rs. invalidRule L (rs ! k) \<and> (\<forall>j < k. \<not> invalidRule L (rs ! j)) \<and> e = ruleError (i + k) (rs ! k))"
proof (induction rs arbitrary: i cr)
  case Nil
  then show ?case by simp
next
  case (Cons r rs)
  show ?case
  proof (cases "invalidRule L r")
    case True
    have l: "compileRules L i (r # rs) cr = Inl (ruleError i r)"
      using True by (auto simp: invalidRule_def emptyField_def ruleError_def split: option.splits)
    show ?thesis
    proof
      assume "compileRules L i (r # rs) cr = Inl e"
      then have "e = ruleError i r" using l by simp
      then show "\<exists>k < length (r # rs). invalidRule L ((r # rs) ! k) \<and> (\<forall>j < k. \<not> invalidRule L ((r # rs) ! j)) \<and> e = ruleError (i + k) ((r # rs) ! k)"
        using True by (intro exI[of _ 0]) simp
    next
      assume "\<exists>k < length (r # rs). invalidRule L ((r # rs) ! k) \<and> (\<forall>j < k. \<not> invalidRule L ((r # rs) ! j)) \<and> e = ruleError (i + k) ((r # rs) ! k)"
      then obtain k where k: "k < length (r # rs)" "\<forall>j < k. \<not> invalidRule L ((r # rs) ! j)" "e = ruleError (i + k) ((r # rs) ! k)"
        by blast
      have "k = 0"
      proof (rule ccontr)
        assume "k \<noteq> 0"
        then have "0 < k" by simp
        with k(2) have "\<not> invalidRule L ((r # rs) ! 0)" by blast
        with True show False by simp
      qed
      with k(3) l show "compileRules L i (r # rs) cr = Inl e" by simp
    qed
  next
    case False
    then obtain x where x: "regexp_Compile L (Pattern r) = Some x"
      and ne: "Pattern r \<noteq> []" "ProfileDirectory r \<noteq> []"
      by (auto simp: invalidRule_def emptyField_def)
    let ?c = "\<lparr>re = x, profileDirectory = ProfileDirectory r\<rparr>"
    have step: "compileRules L i (r # rs) cr = compileRules L (Suc i) rs (cr @ [?c])"
      using x ne by simp
    show ?thesis
      unfolding step Cons.IH
    proof
      assume "\<exists>k<length rs. invalidRule L (rs ! k) \<and> (\<forall>j<k. \<not> invalidRule L (rs ! j)) \<and> e = ruleError (Suc i + k) (rs ! k)"
      then obtain k where k: "k < length rs" "invalidRule L (rs ! k)" "\<forall>j<k. \<not> invalidRule L (rs ! j)" "e = ruleError (Suc i + k) (rs ! k)"
        by blast
      have "\<forall>j < Suc k. \<not> invalidRule L ((r # rs) ! j)"
        using k(3) False by (auto simp: nth_Cons split: nat.splits)
      then show "\<exists>k<length (r # rs). invalidRule L ((r # rs) ! k) \<and> (\<forall>j<k. \<not> invalidRule L ((r # rs) ! j)) \<and> e = ruleError (i + k) ((r # rs) ! k)"
        using k by (intro exI[of _ "Suc k"]) simp
    next
      assume "\<exists>k<length (r # rs). invalidRule L ((r # rs) ! k) \<and> (\<forall>j<k. \<not> invalidRule L ((r # rs) ! j)) \<and> e = ruleError (i + k) ((r # rs) ! k)"
      then obtain k where k: "k < length (r # rs)" "invalidRule L ((r # rs) ! k)" "\<forall>j<k. \<not> invalidRule L ((r # rs) ! j)" "e = ruleError (i + k) ((r # rs) ! k)"
        by blast
      from k(2) False obtain k' where k': "k = Suc k'" by (cases k) auto
      have "\<forall>j<k'. \<not> invalidRule L (rs ! j)"
      proof (intro allI impI)
        fix j assume "j < k'"
        then have "Suc j < k" using k' by simp
        with k(3) have "\<not> invalidRule L ((r # rs) ! Suc j)" by blast
        then show "\<not> invalidRule L (rs ! j)" by simp
      qed
      then show "\<exists>k<length rs. invalidRule L (rs ! k) \<and> (\<forall>j<k. \<not> invalidRule L (rs ! j)) \<and> e = ruleError (Suc i + k) (rs ! k)"
        using k k' by (intro exI[of _ k']) simp
    qed
  qed
qed

lemma Rules_applyDefaults: "Rules (applyDefaults c) = Rules c"
  by (simp add: applyDefaults_def Let_def)

lemma loadConfig_oneshot_Parsed:
  "loadConfig_oneshot L (Parsed c) =
     (case compileRules L 0 (Rules c) [] of
        Inl e \<Rightarrow> Inl e
      | Inr cr \<Rightarrow> Inr (applyDefaults c, cr))"
  by (simp add: loadConfig_oneshot_def Let_def Rules_applyDefaults)

lemma loadConfig_Parsed:
  "loadConfig L (Parsed c) =
     (case compileRules L 0 (Rules c) [] of
        Inl e \<Rightarrow> Inl e
      | Inr cr \<Rightarrow>
          (case logrus_ParseLevel L (effectiveLogLevel (LogLevel c)) of
             None \<Rightarrow> Inl ParseLogLevel
           | Some lvl \<Rightarrow>
               Inr ((applyDefaults c)\<lparr>LogLevel := effectiveLogLevel (LogLevel c),
                                        compiledRules := cr, parsedLogLevel := lvl\<rparr>)))"
  by (auto simp: loadConfig_def Let_def Rules_applyDefaults effectiveLogLevel_def applyDefaults_def
      split: sum.splits option.splits)

lemma ruleError_not_ParseLogLevel: "ruleError k r \<noteq> ParseLogLevel"
  by (simp add: ruleError_def)

lemma compileRules_Inl_not_ParseLogLevel:
  "compileRules L i rs cr = Inl e \<Longrightarrow> e \<noteq> ParseLogLevel"
  by (auto simp: compileRules_Inl ruleError_not_ParseLogLevel)

text \<open>
  C6. Rule compilation in \<^verbatim>\<open>loadConfig\<close> fails, with no compiled rules returned, if and
  only if some rule has an empty pattern, an empty profile directory or a pattern that
  \<^verbatim>\<open>regexp.Compile\<close> rejects; the error carries the index of the first such rule; when
  every rule is valid the result has one compiled rule per rule, in the same order,
  each made of the compiled pattern and the profile directory of its rule. In the
  listener revisions \<^verbatim>\<open>loadConfig\<close> has one later error, the log level, which is kept
  apart.
\<close>

theorem rule_compilation:
  "((\<exists>e. loadConfig_oneshot L (Parsed c1) = Inl e) \<longleftrightarrow> (\<exists>r \<in> set (Rules c1). invalidRule L r))
   \<and> (loadConfig_oneshot L (Parsed c1) = Inl e \<longleftrightarrow>
        (\<exists>k < length (Rules c1). invalidRule L (Rules c1 ! k)
            \<and> (\<forall>j < k. \<not> invalidRule L (Rules c1 ! j)) \<and> e = ruleError k (Rules c1 ! k)))
   \<and> (loadConfig_oneshot L (Parsed c1) = Inr (cfg1, cr) \<longrightarrow>
        Rules cfg1 = Rules c1 \<and> list_all2 (compiledFrom L) (Rules c1) cr)
   \<and> ((\<exists>e. loadConfig L (Parsed c) = Inl e \<and> e \<noteq> ParseLogLevel)
        \<longleftrightarrow> (\<exists>r \<in> set (Rules c). invalidRule L r))
   \<and> (e \<noteq> ParseLogLevel \<longrightarrow>
        (loadConfig L (Parsed c) = Inl e \<longleftrightarrow>
          (\<exists>k < length (Rules c). invalidRule L (Rules c ! k)
              \<and> (\<forall>j < k. \<not> invalidRule L (Rules c ! j)) \<and> e = ruleError k (Rules c ! k))))
   \<and> (loadConfig L (Parsed c) = Inr cfg \<longrightarrow>
        Rules cfg = Rules c \<and> list_all2 (compiledFrom L) (Rules c) (compiledRules cfg))
   \<and> ((\<forall>r \<in> set (Rules c). \<not> invalidRule L r)
        \<and> logrus_ParseLevel L (effectiveLogLevel (LogLevel c)) \<noteq> None
        \<longrightarrow> (\<exists>cfg. loadConfig L (Parsed c) = Inr cfg))"
proof -
  have total: "(\<exists>e. compileRules L 0 rs [] = Inl e) \<longleftrightarrow> (\<exists>r \<in> set rs. invalidRule L r)" for rs
  proof -
    have "(\<exists>e. compileRules L 0 rs [] = Inl e) \<longleftrightarrow> \<not> (\<exists>cr. compileRules L 0 rs [] = Inr cr)"
      by (cases "compileRules L 0 rs []") auto
    also have "\<dots> \<longleftrightarrow> (\<exists>r \<in> set rs. invalidRule L r)"
    proof -
      have "\<exists>new. list_all2 (compiledFrom L) rs new" if "\<forall>r \<in> set rs. \<not> invalidRule L r"
        using that
      proof (induction rs)
        case Nil
        then show ?case by simp
      next
        case (Cons r rs)
        then obtain new where "list_all2 (compiledFrom L) rs new" by auto
        moreover from Cons.prems obtain x where "regexp_Compile L (Pattern r) = Some x"
          by (auto simp: invalidRule_def)
        then have "compiledFrom L r \<lparr>re = x, profileDirectory = ProfileDirectory r\<rparr>"
          by (simp add: compiledFrom_def)
        ultimately show ?case by (auto simp: list_all2_Cons1)
      qed
      then show ?thesis by (auto simp: compileRules_Inr)
    qed
    finally show ?thesis .
  qed
  have A: "(\<exists>e. loadConfig_oneshot L (Parsed c1) = Inl e) \<longleftrightarrow> (\<exists>r \<in> set (Rules c1). invalidRule L r)"
    unfolding total[symmetric] loadConfig_oneshot_Parsed by (auto split: sum.splits)
  have B: "loadConfig_oneshot L (Parsed c1) = Inl e \<longleftrightarrow>
        (\<exists>k < length (Rules c1). invalidRule L (Rules c1 ! k)
            \<and> (\<forall>j < k. \<not> invalidRule L (Rules c1 ! j)) \<and> e = ruleError k (Rules c1 ! k))"
  proof -
    have "loadConfig_oneshot L (Parsed c1) = Inl e \<longleftrightarrow> compileRules L 0 (Rules c1) [] = Inl e"
      by (auto simp: loadConfig_oneshot_Parsed split: sum.splits)
    then show ?thesis by (simp only: compileRules_Inl add_0)
  qed
  have C: "loadConfig_oneshot L (Parsed c1) = Inr (cfg1, cr) \<longrightarrow>
        Rules cfg1 = Rules c1 \<and> list_all2 (compiledFrom L) (Rules c1) cr"
    using compileRules_Inr[of L 0 "Rules c1" "[]" cr]
    by (auto simp: loadConfig_oneshot_Parsed Rules_applyDefaults split: sum.splits)
  have D: "(\<exists>e. loadConfig L (Parsed c) = Inl e \<and> e \<noteq> ParseLogLevel)
        \<longleftrightarrow> (\<exists>r \<in> set (Rules c). invalidRule L r)"
  proof -
    have "(\<exists>e. loadConfig L (Parsed c) = Inl e \<and> e \<noteq> ParseLogLevel)
          \<longleftrightarrow> (\<exists>e. compileRules L 0 (Rules c) [] = Inl e)"
      by (auto simp: loadConfig_Parsed split: sum.splits option.splits
          dest: compileRules_Inl_not_ParseLogLevel)
    then show ?thesis unfolding total .
  qed
  have E: "e \<noteq> ParseLogLevel \<longrightarrow>
        (loadConfig L (Parsed c) = Inl e \<longleftrightarrow>
          (\<exists>k < length (Rules c). invalidRule L (Rules c ! k)
              \<and> (\<forall>j < k. \<not> invalidRule L (Rules c ! j)) \<and> e = ruleError k (Rules c ! k)))"
  proof
    assume "e \<noteq> ParseLogLevel"
    then have "loadConfig L (Parsed c) = Inl e \<longleftrightarrow> compileRules L 0 (Rules c) [] = Inl e"
      by (auto simp: loadConfig_Parsed split: sum.splits option.splits)
    then show "loadConfig L (Parsed c) = Inl e \<longleftrightarrow>
          (\<exists>k < length (Rules c). invalidRule L (Rules c ! k)
              \<and> (\<forall>j < k. \<not> invalidRule L (Rules c ! j)) \<and> e = ruleError k (Rules c ! k))"
      by (simp only: compileRules_Inl add_0)
  qed
  have F: "loadConfig L (Parsed c) = Inr cfg \<longrightarrow>
        Rules cfg = Rules c \<and> list_all2 (compiledFrom L) (Rules c) (compiledRules cfg)"
    using compileRules_Inr[of L 0 "Rules c" "[]" "compiledRules cfg"]
    by (auto simp: loadConfig_Parsed Rules_applyDefaults split: sum.splits option.splits)
  have G: "(\<forall>r \<in> set (Rules c). \<not> invalidRule L r)
        \<and> logrus_ParseLevel L (effectiveLogLevel (LogLevel c)) \<noteq> None
        \<longrightarrow> (\<exists>cfg. loadConfig L (Parsed c) = Inr cfg)"
    using total[of "Rules c"]
    by (auto simp: loadConfig_Parsed split: sum.splits option.splits)
  from A B C D E F G show ?thesis by blast
qed

lemma loadConfig_sample: "loadConfig sample_ext (Parsed sample_json) = Inr sample_config"
  by (simp add: loadConfig_def sample_ext_def sample_json_def sample_config_def applyDefaults_def)

lemma loadConfig_sample_browser:
  "loadConfig sample_ext (Parsed sample_json_browser) = Inr sample_config_browser"
  by (simp add: loadConfig_def sample_ext_def sample_json_def sample_config_def applyDefaults_def
      sample_json_browser_def sample_config_browser_def)

lemma loadConfig_oneshot_sample:
  "loadConfig_oneshot sample_ext (Parsed sample_json_oneshot) = Inr (sample_config_oneshot, sample_rules)"
  by (simp add: loadConfig_oneshot_def sample_ext_def sample_json_oneshot_def
      sample_config_oneshot_def sample_rules_def applyDefaults_def)

lemma loadConfig_oneshot_sample_bad:
  "loadConfig_oneshot sample_ext (Parsed sample_json_bad) = Inl (RuleCompileRegexp 1)"
  by (simp add: loadConfig_oneshot_def sample_ext_def sample_json_bad_def applyDefaults_def)

theorem rule_compilation_witness:
  "(\<exists>r \<in> set (Rules sample_json_bad). invalidRule sample_ext r)
   \<and> loadConfig_oneshot sample_ext (Parsed sample_json_bad) = Inl (RuleCompileRegexp 1)
   \<and> (1 < length (Rules sample_json_bad) \<and> invalidRule sample_ext (Rules sample_json_bad ! 1)
        \<and> \<not> invalidRule sample_ext (Rules sample_json_bad ! 0)
        \<and> RuleCompileRegexp 1 = ruleError 1 (Rules sample_json_bad ! 1))
   \<and> filter (invalidRule sample_ext) (Rules sample_json) = []
   \<and> logrus_ParseLevel sample_ext (effectiveLogLevel (LogLevel sample_json)) \<noteq> None
   \<and> loadConfig sample_ext (Parsed sample_json) = Inr sample_config
   \<and> list_all2 (compiledFrom sample_ext) (Rules sample_json) (compiledRules sample_config)"
proof -
  have bad: "loadConfig_oneshot sample_ext (Parsed sample_json_bad) = Inl (RuleCompileRegexp 1)"
    by (rule loadConfig_oneshot_sample_bad)
  have good: "loadConfig sample_ext (Parsed sample_json) = Inr sample_config"
    by (rule loadConfig_sample)
  note T = rule_compilation [of sample_ext sample_json_bad "RuleCompileRegexp 1" _ _ sample_json sample_config]
  have 1: "\<exists>r \<in> set (Rules sample_json_bad). invalidRule sample_ext r"
    using T bad by blast
  have 2: "list_all2 (compiledFrom sample_ext) (Rules sample_json) (compiledRules sample_config)"
    using T good by blast
  have 3: "1 < length (Rules sample_json_bad) \<and> invalidRule sample_ext (Rules sample_json_bad ! 1)
        \<and> \<not> invalidRule sample_ext (Rules sample_json_bad ! 0)
        \<and> RuleCompileRegexp 1 = ruleError 1 (Rules sample_json_bad ! 1)"
    by (simp add: sample_json_bad_def invalidRule_def emptyField_def sample_ext_def ruleError_def)
  have 4: "filter (invalidRule sample_ext) (Rules sample_json) = []"
    by (simp add: sample_json_def invalidRule_def emptyField_def sample_ext_def)
  have 5: "logrus_ParseLevel sample_ext (effectiveLogLevel (LogLevel sample_json)) \<noteq> None"
    by (simp add: sample_json_def effectiveLogLevel_def sample_ext_def)
  from 1 2 3 4 5 bad good show ?thesis by blast
qed

section \<open>First match wins\<close>

lemma chooseProfile_loop_None:
  "(chooseProfile_loop L u rs = None) = (\<forall>r \<in> set rs. \<not> regexp_MatchString L (re r) u)"
  by (induction rs) auto

lemma chooseProfile_loop_first:
  "k < length rs \<Longrightarrow> regexp_MatchString L (re (rs ! k)) u
   \<Longrightarrow> \<forall>j < k. \<not> regexp_MatchString L (re (rs ! j)) u
   \<Longrightarrow> chooseProfile_loop L u rs = Some (profileDirectory (rs ! k))"
proof (induction rs arbitrary: k)
  case Nil
  then show ?case by simp
next
  case (Cons r rs)
  show ?case
  proof (cases k)
    case 0
    with Cons.prems show ?thesis by simp
  next
    case (Suc k')
    have "\<not> regexp_MatchString L (re r) u"
      using Cons.prems(3) Suc by (auto dest: spec[of _ 0])
    moreover have "\<forall>j < k'. \<not> regexp_MatchString L (re (rs ! j)) u"
      using Cons.prems(3) Suc by (auto dest: spec[of _ "Suc j" for j])
    ultimately show ?thesis
      using Cons.IH[of k'] Cons.prems Suc by simp
  qed
qed

lemma chooseProfile_oneshot_loop:
  "chooseProfile_oneshot L u rs fb =
     (case chooseProfile_loop L u rs of Some p \<Rightarrow> p | None \<Rightarrow> fb)"
  by (induction rs) auto

lemma matching_Nil:
  "(matching L u rs = []) = (\<forall>r \<in> set rs. \<not> regexp_MatchString L (re r) u)"
  by (auto simp: matching_def filter_empty_conv)

text \<open>
  C1. For every URL and every compiled rule list, \<^verbatim>\<open>chooseProfile\<close> (both revisions)
  returns the profile directory of the first rule, in source order, whose expression
  matches the URL by \<^verbatim>\<open>MatchString\<close>, whatever later rules match as well. If no rule
  matches, the loop over the rules ends without returning the profile of any rule, and
  the result is the fallback alone: in the listener the default profile directory under
  \<^verbatim>\<open>use-default-profile\<close> and the empty string otherwise, in the one-shot revision
  the fallback argument.
\<close>

theorem first_match_wins:
  "(k < length (compiledRules config)
      \<and> regexp_MatchString L (re (compiledRules config ! k)) urlStr
      \<and> (\<forall>j < k. \<not> regexp_MatchString L (re (compiledRules config ! j)) urlStr)
    \<longrightarrow> chooseProfile L urlStr config = profileDirectory (compiledRules config ! k)
        \<and> chooseProfile_oneshot L urlStr (compiledRules config) fallback
            = profileDirectory (compiledRules config ! k))
   \<and> ((\<forall>r \<in> set (compiledRules config). \<not> regexp_MatchString L (re r) urlStr)
    \<longrightarrow> chooseProfile_loop L urlStr (compiledRules config) = None
        \<and> chooseProfile L urlStr config
          = (if StrategyForUnknownUrls config = StrategyForUnknownUrlsUseDefaultProfile
             then DefaultProfileDirectory config else [])
        \<and> chooseProfile_oneshot L urlStr (compiledRules config) fallback = fallback)"
proof (intro conjI impI)
  assume h: "k < length (compiledRules config)
      \<and> regexp_MatchString L (re (compiledRules config ! k)) urlStr
      \<and> (\<forall>j < k. \<not> regexp_MatchString L (re (compiledRules config ! j)) urlStr)"
  then have l: "chooseProfile_loop L urlStr (compiledRules config)
      = Some (profileDirectory (compiledRules config ! k))"
    by (simp add: chooseProfile_loop_first)
  show "chooseProfile L urlStr config = profileDirectory (compiledRules config ! k)"
    by (simp add: chooseProfile_def l)
  show "chooseProfile_oneshot L urlStr (compiledRules config) fallback
      = profileDirectory (compiledRules config ! k)"
    by (simp add: chooseProfile_oneshot_loop l)
next
  assume "\<forall>r \<in> set (compiledRules config). \<not> regexp_MatchString L (re r) urlStr"
  then show l: "chooseProfile_loop L urlStr (compiledRules config) = None"
    by (simp add: chooseProfile_loop_None)
  show "chooseProfile L urlStr config
      = (if StrategyForUnknownUrls config = StrategyForUnknownUrlsUseDefaultProfile
         then DefaultProfileDirectory config else [])"
    by (simp add: chooseProfile_def l)
  show "chooseProfile_oneshot L urlStr (compiledRules config) fallback = fallback"
    by (simp add: chooseProfile_oneshot_loop l)
qed

lemma sample_match_github:
  "regexp_MatchString sample_ext ''github'' ''https://github.com/acme/repo''"
  by (simp add: sample_ext_def HasPrefix_def)

lemma sample_match_git:
  "regexp_MatchString sample_ext ''git'' ''https://github.com/acme/repo''"
  by (simp add: sample_ext_def HasPrefix_def)

lemma sample_nomatch_github:
  "\<not> regexp_MatchString sample_ext ''github'' ''https://example.com''"
  by (simp add: sample_ext_def HasPrefix_def)

lemma sample_nomatch_git:
  "\<not> regexp_MatchString sample_ext ''git'' ''https://example.com''"
  by (simp add: sample_ext_def HasPrefix_def)

lemma sample_matching_none:
  "matching sample_ext ''https://example.com'' (compiledRules sample_config) = []"
  by (simp add: matching_def sample_config_def sample_nomatch_github sample_nomatch_git)

theorem first_match_wins_witness:
  "(0::nat) < length (compiledRules sample_config)
   \<and> regexp_MatchString sample_ext (re (compiledRules sample_config ! 0)) ''https://github.com/acme/repo''
   \<and> regexp_MatchString sample_ext (re (compiledRules sample_config ! 1)) ''https://github.com/acme/repo''
   \<and> chooseProfile sample_ext ''https://github.com/acme/repo'' sample_config = ''Work''
   \<and> chooseProfile_oneshot sample_ext ''https://github.com/acme/repo'' (compiledRules sample_config) ''Default'' = ''Work''
   \<and> matching sample_ext ''https://example.com'' (compiledRules sample_config) = []
   \<and> chooseProfile_loop sample_ext ''https://example.com'' (compiledRules sample_config) = None
   \<and> chooseProfile sample_ext ''https://example.com'' sample_config = ''Work''
   \<and> chooseProfile_oneshot sample_ext ''https://example.com'' (compiledRules sample_config) ''Default'' = ''Default''"
proof -
  have h0: "(0::nat) < length (compiledRules sample_config)
     \<and> regexp_MatchString sample_ext (re (compiledRules sample_config ! 0)) ''https://github.com/acme/repo''
     \<and> (\<forall>j < (0::nat). \<not> regexp_MatchString sample_ext (re (compiledRules sample_config ! j)) ''https://github.com/acme/repo'')"
    by (simp add: sample_config_def sample_match_github)
  have h1: "regexp_MatchString sample_ext (re (compiledRules sample_config ! 1)) ''https://github.com/acme/repo''"
    by (simp add: sample_config_def sample_match_git)
  have h2: "\<forall>r \<in> set (compiledRules sample_config). \<not> regexp_MatchString sample_ext (re r) ''https://example.com''"
    by (simp add: sample_config_def sample_nomatch_github sample_nomatch_git)
  have p0: "profileDirectory (compiledRules sample_config ! 0) = ''Work''"
    by (simp add: sample_config_def)
  have s: "StrategyForUnknownUrls sample_config = StrategyForUnknownUrlsUseDefaultProfile"
    "DefaultProfileDirectory sample_config = ''Work''"
    by (simp_all add: sample_config_def StrategyForUnknownUrlsUseDefaultProfile_def)
  from first_match_wins [of 0 sample_config sample_ext "''https://github.com/acme/repo''" "''Default''"]
    h0 p0
  have a: "chooseProfile sample_ext ''https://github.com/acme/repo'' sample_config = ''Work''
     \<and> chooseProfile_oneshot sample_ext ''https://github.com/acme/repo'' (compiledRules sample_config) ''Default'' = ''Work''"
    by simp
  from first_match_wins [of 0 sample_config sample_ext "''https://example.com''" "''Default''"]
    h2 s
  have b: "chooseProfile_loop sample_ext ''https://example.com'' (compiledRules sample_config) = None
     \<and> chooseProfile sample_ext ''https://example.com'' sample_config = ''Work''
     \<and> chooseProfile_oneshot sample_ext ''https://example.com'' (compiledRules sample_config) ''Default'' = ''Default''"
    by simp
  from h0 h1 sample_matching_none a b show ?thesis by blast
qed

section \<open>Launcher hand-off\<close>

lemma openInChrome_args_eq:
  "openInChrome_args L app p u =
     [''-na'', app, ''--args''] @ (if p = [] then [] else [''--profile-directory='' @ p])
       @ [if url_Parse L u = Some [] \<and> \<not> HasPrefix u ''http'' then ''http://'' @ u else u]"
  by (cases "url_Parse L u") (simp_all add: openInChrome_args_def)

lemma openInChrome_args_oneshot_eq:
  "openInChrome_args_oneshot L app p u =
     [''-na'', app, ''--args'', ''--profile-directory='' @ p,
      if url_Parse L u = Some [] \<and> \<not> HasPrefix u ''http'' then ''http://'' @ u else u]"
  by (cases "url_Parse L u") (simp_all add: openInChrome_args_oneshot_def)

lemma compileRules_profiles_nonempty:
  "compileRules L i rs cr = Inr cr' \<Longrightarrow> \<forall>c \<in> set cr. profileDirectory c \<noteq> []
   \<Longrightarrow> \<forall>c \<in> set cr'. profileDirectory c \<noteq> []"
proof (induction rs arbitrary: i cr)
  case Nil
  then show ?case by simp
next
  case (Cons r rs)
  from Cons.prems(1) obtain x where x: "regexp_Compile L (Pattern r) = Some x"
    and ne: "Pattern r \<noteq> []" "ProfileDirectory r \<noteq> []"
    by (auto split: if_splits option.splits)
  let ?c = "\<lparr>re = x, profileDirectory = ProfileDirectory r\<rparr>"
  have "compileRules L (Suc i) rs (cr @ [?c]) = Inr cr'"
    using Cons.prems(1) x ne by simp
  moreover have "\<forall>c \<in> set (cr @ [?c]). profileDirectory c \<noteq> []"
    using Cons.prems(2) ne by simp
  ultimately show ?case by (rule Cons.IH)
qed

lemma chooseProfile_loop_in_profiles:
  "chooseProfile_loop L u rs = Some p \<Longrightarrow> p \<in> set (ruleProfiles rs)"
  by (induction rs) (auto simp: ruleProfiles_def split: if_splits)

lemma DefaultProfileDirectory_applyDefaults: "DefaultProfileDirectory (applyDefaults c) \<noteq> []"
  by (simp add: applyDefaults_def Let_def)

lemma ChromeAppPath_applyDefaults: "ChromeAppPath (applyDefaults c) \<noteq> []"
  by (simp add: applyDefaults_def Let_def)

lemma loadConfig_oneshot_profile_nonempty:
  assumes "loadConfig_oneshot L src = Inr (config, rules)"
  shows "chooseProfile_oneshot L u rules (DefaultProfileDirectory config) \<noteq> []"
proof -
  from assms obtain c where src: "src = Parsed c"
    by (cases src) (simp_all add: loadConfig_oneshot_def)
  from assms src have cr: "compileRules L 0 (Rules c) [] = Inr rules" and cfg: "config = applyDefaults c"
    by (auto simp: loadConfig_oneshot_Parsed split: sum.splits)
  have ne: "\<forall>c \<in> set rules. profileDirectory c \<noteq> []"
    using compileRules_profiles_nonempty[OF cr] by simp
  show ?thesis
  proof (cases "chooseProfile_loop L u rules")
    case None
    then show ?thesis
      by (simp add: chooseProfile_oneshot_loop cfg DefaultProfileDirectory_applyDefaults)
  next
    case (Some p)
    then have "p \<in> set (ruleProfiles rules)" by (rule chooseProfile_loop_in_profiles)
    with ne have "p \<noteq> []" by (auto simp: ruleProfiles_def)
    with Some show ?thesis by (simp add: chooseProfile_oneshot_loop)
  qed
qed

lemma loadConfig_fields:
  assumes "loadConfig L src = Inr config"
  shows "DefaultProfileDirectory config \<noteq> []"
    and "ChromeAppPath config \<noteq> []"
    and "\<forall>c \<in> set (compiledRules config). profileDirectory c \<noteq> []"
proof -
  from assms obtain c where src: "src = Parsed c"
    by (cases src) (simp_all add: loadConfig_def)
  from assms src obtain cr lvl where cr: "compileRules L 0 (Rules c) [] = Inr cr"
    and cfg: "config = (applyDefaults c)\<lparr>LogLevel := effectiveLogLevel (LogLevel c),
                                        compiledRules := cr, parsedLogLevel := lvl\<rparr>"
    by (auto simp: loadConfig_Parsed split: sum.splits option.splits)
  show "DefaultProfileDirectory config \<noteq> []"
    by (simp add: cfg DefaultProfileDirectory_applyDefaults)
  show "ChromeAppPath config \<noteq> []"
    by (simp add: cfg ChromeAppPath_applyDefaults)
  show "\<forall>c \<in> set (compiledRules config). profileDirectory c \<noteq> []"
    using compileRules_profiles_nonempty[OF cr] by (simp add: cfg)
qed

text \<open>
  C7. \<^verbatim>\<open>openInChrome\<close> runs \<^verbatim>\<open>open\<close> with: the flag \<^verbatim>\<open>-na\<close> (new instance of
  the application) and the application path, \<^verbatim>\<open>--args\<close>, the profile argument only when
  the profile is not empty, and last the URL, which is prefixed with \<^verbatim>\<open>http://\<close>
  exactly when it parses with an empty scheme and does not start with \<^verbatim>\<open>http\<close>, and is
  unchanged otherwise (also when it does not parse). The one-shot revision always
  formats the profile argument; it builds the same arguments for a non-empty profile,
  and the profile it chooses after a successful load is never empty.
\<close>

theorem launcher_handoff:
  "openInChrome L chromeAppPath profileDir urlStr
     = cmd_Run L ''open'' (openInChrome_args L chromeAppPath profileDir urlStr)
   \<and> openInChrome_args L chromeAppPath profileDir urlStr
     = [''-na'', chromeAppPath, ''--args'']
        @ (if profileDir = [] then [] else [''--profile-directory='' @ profileDir])
        @ [if url_Parse L urlStr = Some [] \<and> \<not> HasPrefix urlStr ''http''
           then ''http://'' @ urlStr else urlStr]
   \<and> last (openInChrome_args L chromeAppPath profileDir urlStr)
     = (if url_Parse L urlStr = Some [] \<and> \<not> HasPrefix urlStr ''http''
        then ''http://'' @ urlStr else urlStr)
   \<and> (profileDir \<noteq> [] \<longrightarrow>
        openInChrome_args_oneshot L chromeAppPath profileDir urlStr
          = openInChrome_args L chromeAppPath profileDir urlStr
        \<and> openInChrome_oneshot L chromeAppPath profileDir urlStr
          = openInChrome L chromeAppPath profileDir urlStr)
   \<and> (loadConfig_oneshot L src = Inr (config, rules) \<longrightarrow>
        chooseProfile_oneshot L urlStr rules (DefaultProfileDirectory config) \<noteq> [])"
  using loadConfig_oneshot_profile_nonempty[of L src config rules urlStr]
  by (simp add: openInChrome_def openInChrome_oneshot_def openInChrome_args_eq
      openInChrome_args_oneshot_eq)

lemma sample_url_Parse:
  "url_Parse sample_ext ''example.com'' = Some []"
  "url_Parse sample_ext ''https://example.com'' = Some ''https''"
  "url_Parse sample_ext ''http-status.org'' = Some []"
  by (simp_all add: sample_ext_def HasPrefix_def)

theorem launcher_handoff_witness:
  "''Work'' \<noteq> []
   \<and> loadConfig_oneshot sample_ext (Parsed sample_json_oneshot) = Inr (sample_config_oneshot, sample_rules)
   \<and> openInChrome_args sample_ext ''/Applications/Google Chrome.app'' ''Work'' ''example.com''
      = [''-na'', ''/Applications/Google Chrome.app'', ''--args'', ''--profile-directory=Work'',
         ''http://example.com'']
   \<and> openInChrome_args_oneshot sample_ext ''/Applications/Google Chrome.app'' ''Work'' ''example.com''
      = [''-na'', ''/Applications/Google Chrome.app'', ''--args'', ''--profile-directory=Work'',
         ''http://example.com'']
   \<and> openInChrome_args sample_ext ''/Applications/Google Chrome.app'' [] ''https://example.com''
      = [''-na'', ''/Applications/Google Chrome.app'', ''--args'', ''https://example.com'']
   \<and> openInChrome_args sample_ext ''/Applications/Google Chrome.app'' [] ''http-status.org''
      = [''-na'', ''/Applications/Google Chrome.app'', ''--args'', ''http-status.org'']
   \<and> chooseProfile_oneshot sample_ext ''example.com'' sample_rules
        (DefaultProfileDirectory sample_config_oneshot) \<noteq> []"
proof -
  note T = launcher_handoff [of sample_ext "''/Applications/Google Chrome.app''" _ _
      "Parsed sample_json_oneshot" sample_config_oneshot sample_rules]
  have p: "HasPrefix ''http-status.org'' ''http''" "\<not> HasPrefix ''example.com'' ''http''"
    by (simp_all add: HasPrefix_def)
  from T [of "''Work''" "''example.com''"] loadConfig_oneshot_sample p sample_url_Parse
  have a: "openInChrome_args sample_ext ''/Applications/Google Chrome.app'' ''Work'' ''example.com''
      = [''-na'', ''/Applications/Google Chrome.app'', ''--args'', ''--profile-directory=Work'',
         ''http://example.com'']"
    and b: "openInChrome_args_oneshot sample_ext ''/Applications/Google Chrome.app'' ''Work'' ''example.com''
      = [''-na'', ''/Applications/Google Chrome.app'', ''--args'', ''--profile-directory=Work'',
         ''http://example.com'']"
    and c: "chooseProfile_oneshot sample_ext ''example.com'' sample_rules
        (DefaultProfileDirectory sample_config_oneshot) \<noteq> []"
    by simp_all
  from T [of "[]" "''https://example.com''"] sample_url_Parse
  have d: "openInChrome_args sample_ext ''/Applications/Google Chrome.app'' [] ''https://example.com''
      = [''-na'', ''/Applications/Google Chrome.app'', ''--args'', ''https://example.com'']"
    by simp
  from T [of "[]" "''http-status.org''"] sample_url_Parse p
  have e: "openInChrome_args sample_ext ''/Applications/Google Chrome.app'' [] ''http-status.org''
      = [''-na'', ''/Applications/Google Chrome.app'', ''--args'', ''http-status.org'']"
    by simp
  from a b c d e loadConfig_oneshot_sample show ?thesis by simp
qed

section \<open>URLs that match no rule\<close>

lemma chooseProfile_no_match:
  "matching L u (compiledRules config) = [] \<Longrightarrow>
   chooseProfile L u config =
     (if StrategyForUnknownUrls config = StrategyForUnknownUrlsUseDefaultProfile
      then DefaultProfileDirectory config else [])"
  by (simp add: chooseProfile_def matching_Nil chooseProfile_loop_None[symmetric])

lemma launches_processURL:
  "launches (processURL L u config) =
     [openInChrome_args L (ChromeAppPath config) (chooseProfile L u config) u]"
  by (simp add: processURL_def Let_def split: option.splits)

lemma strategies_differ:
  "StrategyForUnknownUrlsUseBrowserDefault \<noteq> StrategyForUnknownUrlsUseDefaultProfile"
  by (simp add: StrategyForUnknownUrlsUseBrowserDefault_def StrategyForUnknownUrlsUseDefaultProfile_def)

text \<open>
  C2 (amended). For a loaded configuration and a URL that matches no rule: under
  \<^verbatim>\<open>use-default-profile\<close> the decision is the configured default profile; under
  \<^verbatim>\<open>use-browser-default\<close> the decision is "no profile" (the empty string), and the
  launcher is still invoked, exactly once, with the application path, the URL and no
  profile argument.
\<close>

theorem unknown_url_strategy:
  "loadConfig L src = Inr config \<and> matching L urlStr (compiledRules config) = [] \<longrightarrow>
     (StrategyForUnknownUrls config = StrategyForUnknownUrlsUseDefaultProfile \<longrightarrow>
        decision (chooseProfile L urlStr config) = Some (DefaultProfileDirectory config))
   \<and> (StrategyForUnknownUrls config = StrategyForUnknownUrlsUseBrowserDefault \<longrightarrow>
        decision (chooseProfile L urlStr config) = None
        \<and> launches (processURL L urlStr config)
            = [ [''-na'', ChromeAppPath config, ''--args'',
                if url_Parse L urlStr = Some [] \<and> \<not> HasPrefix urlStr ''http''
                then ''http://'' @ urlStr else urlStr] ])"
proof (intro impI conjI; elim conjE)
  assume l: "loadConfig L src = Inr config" and m: "matching L urlStr (compiledRules config) = []"
    and s: "StrategyForUnknownUrls config = StrategyForUnknownUrlsUseDefaultProfile"
  show "decision (chooseProfile L urlStr config) = Some (DefaultProfileDirectory config)"
    using loadConfig_fields(1)[OF l] by (simp add: chooseProfile_no_match[OF m] s decision_def)
next
  assume m: "matching L urlStr (compiledRules config) = []"
    and s: "StrategyForUnknownUrls config = StrategyForUnknownUrlsUseBrowserDefault"
  show "decision (chooseProfile L urlStr config) = None"
    by (simp add: chooseProfile_no_match[OF m] s strategies_differ decision_def)
next
  assume m: "matching L urlStr (compiledRules config) = []"
    and s: "StrategyForUnknownUrls config = StrategyForUnknownUrlsUseBrowserDefault"
  show "launches (processURL L urlStr config)
            = [ [''-na'', ChromeAppPath config, ''--args'',
                if url_Parse L urlStr = Some [] \<and> \<not> HasPrefix urlStr ''http''
                then ''http://'' @ urlStr else urlStr] ]"
    by (simp add: launches_processURL chooseProfile_no_match[OF m] s strategies_differ
        openInChrome_args_eq)
qed

lemma sample_matching_none_browser:
  "matching sample_ext ''https://example.com'' (compiledRules sample_config_browser) = []"
  by (simp add: matching_def sample_config_browser_def sample_config_def
      sample_nomatch_github sample_nomatch_git)

theorem unknown_url_strategy_witness:
  "loadConfig sample_ext (Parsed sample_json) = Inr sample_config
   \<and> matching sample_ext ''https://example.com'' (compiledRules sample_config) = []
   \<and> StrategyForUnknownUrls sample_config = StrategyForUnknownUrlsUseDefaultProfile
   \<and> decision (chooseProfile sample_ext ''https://example.com'' sample_config) = Some ''Work''
   \<and> loadConfig sample_ext (Parsed sample_json_browser) = Inr sample_config_browser
   \<and> matching sample_ext ''https://example.com'' (compiledRules sample_config_browser) = []
   \<and> StrategyForUnknownUrls sample_config_browser = StrategyForUnknownUrlsUseBrowserDefault
   \<and> decision (chooseProfile sample_ext ''https://example.com'' sample_config_browser) = None
   \<and> launches (processURL sample_ext ''https://example.com'' sample_config_browser)
       = [ [''-na'', ''/Applications/Google Chrome.app'', ''--args'', ''https://example.com''] ]"
proof -
  have s1: "StrategyForUnknownUrls sample_config = StrategyForUnknownUrlsUseDefaultProfile"
    "DefaultProfileDirectory sample_config = ''Work''"
    by (simp_all add: sample_config_def StrategyForUnknownUrlsUseDefaultProfile_def)
  have s2: "StrategyForUnknownUrls sample_config_browser = StrategyForUnknownUrlsUseBrowserDefault"
    "ChromeAppPath sample_config_browser = ''/Applications/Google Chrome.app''"
    by (simp_all add: sample_config_browser_def sample_config_def
        StrategyForUnknownUrlsUseBrowserDefault_def)
  from unknown_url_strategy [of sample_ext "Parsed sample_json" sample_config "''https://example.com''"]
    loadConfig_sample sample_matching_none s1
  have a: "decision (chooseProfile sample_ext ''https://example.com'' sample_config) = Some ''Work''"
    by simp
  from unknown_url_strategy [of sample_ext "Parsed sample_json_browser" sample_config_browser
      "''https://example.com''"]
    loadConfig_sample_browser sample_matching_none_browser s2 sample_url_Parse
  have b: "decision (chooseProfile sample_ext ''https://example.com'' sample_config_browser) = None
     \<and> launches (processURL sample_ext ''https://example.com'' sample_config_browser)
       = [ [''-na'', ''/Applications/Google Chrome.app'', ''--args'', ''https://example.com''] ]"
    by simp
  from a b s1 s2 loadConfig_sample loadConfig_sample_browser sample_matching_none
    sample_matching_none_browser
  show ?thesis by simp
qed

text \<open>
  C2 as stated says that no launch is attempted under \<^verbatim>\<open>use-browser-default\<close>. The
  loaded sample configuration with that strategy and a URL that matches no rule:
  \<^verbatim>\<open>processURL\<close> starts \<^verbatim>\<open>open\<close>.
\<close>

theorem launch_under_browser_default:
  "loadConfig sample_ext (Parsed sample_json_browser) = Inr sample_config_browser
   \<and> StrategyForUnknownUrls sample_config_browser = StrategyForUnknownUrlsUseBrowserDefault
   \<and> matching sample_ext ''https://example.com'' (compiledRules sample_config_browser) = []
   \<and> processURL sample_ext ''https://example.com'' sample_config_browser
       = [Routing ''https://example.com'' [],
          SpawnStart ''open''
            [''-na'', ''/Applications/Google Chrome.app'', ''--args'', ''https://example.com''],
          SpawnEnd None]"
proof -
  have s2: "StrategyForUnknownUrls sample_config_browser = StrategyForUnknownUrlsUseBrowserDefault"
    "ChromeAppPath sample_config_browser = ''/Applications/Google Chrome.app''"
    by (simp_all add: sample_config_browser_def sample_config_def
        StrategyForUnknownUrlsUseBrowserDefault_def)
  have c: "chooseProfile sample_ext ''https://example.com'' sample_config_browser = []"
    by (simp add: chooseProfile_no_match[OF sample_matching_none_browser] s2 strategies_differ)
  have r: "cmd_Run sample_ext ''open''
      [''-na'', ''/Applications/Google Chrome.app'', ''--args'', ''https://example.com''] = None"
    by (simp add: sample_ext_def)
  have "processURL sample_ext ''https://example.com'' sample_config_browser
       = [Routing ''https://example.com'' [],
          SpawnStart ''open''
            [''-na'', ''/Applications/Google Chrome.app'', ''--args'', ''https://example.com''],
          SpawnEnd None]"
    by (simp add: processURL_def c s2 openInChrome_def openInChrome_args_eq sample_url_Parse r)
  with loadConfig_sample_browser s2 sample_matching_none_browser show ?thesis by simp
qed

section \<open>Strategy values that are not recognised\<close>

lemma loadConfig_strategy_update:
  "loadConfig L (Parsed (c\<lparr>StrategyForUnknownUrls := s\<rparr>)) =
     (case loadConfig L (Parsed c) of
        Inl e \<Rightarrow> Inl e
      | Inr cfg \<Rightarrow> Inr (cfg\<lparr>StrategyForUnknownUrls := s\<rparr>))"
  by (simp add: loadConfig_Parsed applyDefaults_def Let_def split: sum.splits option.splits)

lemma loadConfig_strategy_kept:
  "loadConfig L (Parsed c) = Inr config \<Longrightarrow> StrategyForUnknownUrls config = StrategyForUnknownUrls c"
  by (auto simp: loadConfig_Parsed applyDefaults_def Let_def split: sum.splits option.splits)

text \<open>
  C10. For a URL that matches no rule, \<^verbatim>\<open>chooseProfile\<close> returns the empty string for
  every strategy value other than \<^verbatim>\<open>use-default-profile\<close>, the empty (unset) value and
  misspelled values included; \<^verbatim>\<open>loadConfig\<close> never looks at the strategy: it keeps the
  value as it is, and whether it succeeds does not depend on it.
\<close>

theorem unrecognised_strategy:
  "(StrategyForUnknownUrls config \<noteq> StrategyForUnknownUrlsUseDefaultProfile
      \<and> matching L urlStr (compiledRules config) = []
     \<longrightarrow> chooseProfile L urlStr config = [])
   \<and> (loadConfig L (Parsed c) = Inr config
     \<longrightarrow> StrategyForUnknownUrls config = StrategyForUnknownUrls c)
   \<and> loadConfig L (Parsed (c\<lparr>StrategyForUnknownUrls := s\<rparr>)) =
       (case loadConfig L (Parsed c) of
          Inl e \<Rightarrow> Inl e
        | Inr cfg \<Rightarrow> Inr (cfg\<lparr>StrategyForUnknownUrls := s\<rparr>))"
  using loadConfig_strategy_kept[of L c config]
  by (simp add: chooseProfile_no_match loadConfig_strategy_update)

theorem unrecognised_strategy_witness:
  "StrategyForUnknownUrls (sample_config\<lparr>StrategyForUnknownUrls := ''use-defualt-profile''\<rparr>)
      \<noteq> StrategyForUnknownUrlsUseDefaultProfile
   \<and> matching sample_ext ''https://example.com''
        (compiledRules (sample_config\<lparr>StrategyForUnknownUrls := ''use-defualt-profile''\<rparr>)) = []
   \<and> chooseProfile sample_ext ''https://example.com''
        (sample_config\<lparr>StrategyForUnknownUrls := ''use-defualt-profile''\<rparr>) = []
   \<and> chooseProfile sample_ext ''https://example.com''
        (sample_config\<lparr>StrategyForUnknownUrls := []\<rparr>) = []
   \<and> loadConfig sample_ext (Parsed (sample_json\<lparr>StrategyForUnknownUrls := ''use-defualt-profile''\<rparr>))
        = Inr (sample_config\<lparr>StrategyForUnknownUrls := ''use-defualt-profile''\<rparr>)
   \<and> loadConfig sample_ext (Parsed (sample_json\<lparr>StrategyForUnknownUrls := []\<rparr>))
        = Inr (sample_config\<lparr>StrategyForUnknownUrls := []\<rparr>)"
proof -
  have n: "''use-defualt-profile'' \<noteq> StrategyForUnknownUrlsUseDefaultProfile"
    "[] \<noteq> StrategyForUnknownUrlsUseDefaultProfile"
    by (simp_all add: StrategyForUnknownUrlsUseDefaultProfile_def)
  have m: "matching sample_ext ''https://example.com'' (compiledRules (sample_config\<lparr>StrategyForUnknownUrls := x\<rparr>)) = []" for x
    using sample_matching_none by simp
  from unrecognised_strategy [of "sample_config\<lparr>StrategyForUnknownUrls := ''use-defualt-profile''\<rparr>"
      sample_ext "''https://example.com''" sample_json "''use-defualt-profile''"] n m loadConfig_sample
  have a: "chooseProfile sample_ext ''https://example.com''
        (sample_config\<lparr>StrategyForUnknownUrls := ''use-defualt-profile''\<rparr>) = []"
    and b: "loadConfig sample_ext (Parsed (sample_json\<lparr>StrategyForUnknownUrls := ''use-defualt-profile''\<rparr>))
        = Inr (sample_config\<lparr>StrategyForUnknownUrls := ''use-defualt-profile''\<rparr>)"
    by simp_all
  from unrecognised_strategy [of "sample_config\<lparr>StrategyForUnknownUrls := []\<rparr>"
      sample_ext "''https://example.com''" sample_json "[]"] n m loadConfig_sample
  have c: "chooseProfile sample_ext ''https://example.com''
        (sample_config\<lparr>StrategyForUnknownUrls := []\<rparr>) = []"
    and d: "loadConfig sample_ext (Parsed (sample_json\<lparr>StrategyForUnknownUrls := []\<rparr>))
        = Inr (sample_config\<lparr>StrategyForUnknownUrls := []\<rparr>)"
    by simp_all
  from a b c d n m show ?thesis by simp
qed

section \<open>Acquiring the single instance\<close>

lemma paths_differ: "logFilePath \<noteq> pidFilePath"
  by (simp add: logFilePath_def pidFilePath_def)

lemma isRunning_iff:
  "isRunning L os pidFilePath \<longleftrightarrow>
     (\<exists>pid. recorded_pid L os = Some pid \<and> alive os pid \<and> may_signal os pid)"
  by (auto simp: isRunning_def recorded_pid_def Kill0_def split: option.splits)

lemma openLogFile_Some:
  "writable os logFilePath \<Longrightarrow>
   openLogFile os = Some (os\<lparr>files := (files os)(logFilePath \<mapsto>
                    (case files os logFilePath of None \<Rightarrow> [] | Some old \<Rightarrow> old))\<rparr>)"
  by (simp add: openLogFile_def)

lemma openLogFile_None: "\<not> writable os logFilePath \<Longrightarrow> openLogFile os = None"
  by (simp add: openLogFile_def)

lemma recorded_pid_other_file:
  "path \<noteq> pidFilePath \<Longrightarrow> recorded_pid L (os\<lparr>files := (files os)(path \<mapsto> c)\<rparr>) = recorded_pid L os"
  by (simp add: recorded_pid_def ReadFile_def)

lemma isRunning_other_file:
  "path \<noteq> pidFilePath \<Longrightarrow>
   isRunning L (os\<lparr>files := (files os)(path \<mapsto> c)\<rparr>) pidFilePath = isRunning L os pidFilePath"
  by (simp add: isRunning_iff recorded_pid_other_file)

lemma files_appendFile:
  "p \<noteq> path \<Longrightarrow> files (appendFile os path data) p = files os p"
  by (simp add: appendFile_def)

lemma files_fold_appendFile:
  "p \<noteq> path \<Longrightarrow> files (fold (\<lambda>e os. appendFile os path (f os e)) es os) p = files os p"
  by (induction es arbitrary: os) (simp_all add: files_appendFile)

lemma files_logOutput:
  "p \<noteq> logFilePath \<Longrightarrow> files (logOutput os lvl es) p = files os p"
  unfolding logOutput_def by (rule files_fold_appendFile)

lemma written_ok: "write_ok os path data \<Longrightarrow> written os path data = data"
  by (auto simp: write_ok_def written_def split: option.splits)

lemma WriteFile_ok:
  "fst (WriteFile os path data) \<Longrightarrow> files (snd (WriteFile os path data)) path = Some data"
  by (auto simp: WriteFile_def written_ok split: if_splits)

lemma WriteFile_log_opened:
  "WriteFile (os\<lparr>files := (files os)(logFilePath \<mapsto> c)\<rparr>) pidFilePath data =
     (fst (WriteFile os pidFilePath data),
      (snd (WriteFile os pidFilePath data))\<lparr>files := (files (snd (WriteFile os pidFilePath data)))
         (logFilePath \<mapsto> c)\<rparr>)"
  using paths_differ
  by (auto simp: WriteFile_def write_ok_def written_def fun_upd_twist)

text \<open>The ways in which \<^verbatim>\<open>main\<close> goes on after it has opened the log file.\<close>

lemma main_opened:
  assumes "loadConfig L src = Inr config" and "writable os logFilePath"
  defines "os1 \<equiv> os\<lparr>files := (files os)(logFilePath \<mapsto>
                    (case files os logFilePath of None \<Rightarrow> [] | Some old \<Rightarrow> old))\<rparr>"
  defines "data \<equiv> strconv_Itoa L (getpid os)"
  shows "isRunning L os pidFilePath \<Longrightarrow>
           main L src os = (Exit 0, logOutput os1 (parsedLogLevel config) [AnotherInstanceRunning],
                            [AnotherInstanceRunning])"
    and "\<not> isRunning L os pidFilePath \<Longrightarrow>
           main L src os =
             (if fst (WriteFile os pidFilePath data)
              then (Listen config (Some (parsedLogLevel config)),
                    logOutput (snd (WriteFile os1 pidFilePath data)) (parsedLogLevel config) [StartListening],
                    [StartListening])
              else (Exit 2,
                    logOutput (snd (WriteFile os1 pidFilePath data)) (parsedLogLevel config)
                      [FailedToWritePidFile],
                    [FailedToWritePidFile]))"
  using assms(1,2) paths_differ
  by (simp_all add: main_def openLogFile_Some os1_def data_def isRunning_other_file
      WriteFile_log_opened Let_def split: prod.splits)

lemma files_after_write:
  "files (logOutput (snd (WriteFile (os\<lparr>files := (files os)(logFilePath \<mapsto> c)\<rparr>) pidFilePath data))
      lvl es) pidFilePath
   = files (snd (WriteFile os pidFilePath data)) pidFilePath"
  using paths_differ by (simp add: files_logOutput WriteFile_log_opened)

text \<open>
  C3 (amended). \<^verbatim>\<open>main\<close> comes to the pid file only after the configuration has
  loaded and the log file has been opened; if either fails it exits with status 2
  whatever the pid file records. After that: \<^verbatim>\<open>isRunning\<close> holds exactly when the pid
  file is readable, its content is a number, and the process of that number is alive
  and may be signalled by this process. In that case the process exits with status 0
  and leaves the pid file as it is. If the recorded process is dead, or no process id
  can be read, the process writes its own id over the pid file: when the write succeeds
  the file holds the new id and the process goes on to listen; when the write fails the
  process exits with status 2.
\<close>

theorem single_instance:
  "(isRunning L os pidFilePath \<longleftrightarrow>
      (\<exists>pid. recorded_pid L os = Some pid \<and> alive os pid \<and> may_signal os pid))
   \<and> (loadConfig L src = Inl err \<longrightarrow> main L src os = (Exit 2, os, [ErrorLoadingConfig err]))
   \<and> (loadConfig L src = Inr config \<and> \<not> writable os logFilePath \<longrightarrow>
        main L src os = (Exit 2, os, [FailedToOpenLogFile]))
   \<and> (loadConfig L src = Inr config \<and> writable os logFilePath \<longrightarrow>
        (recorded_pid L os = Some pid \<and> alive os pid \<and> may_signal os pid \<longrightarrow>
           fst (main L src os) = Exit 0
           \<and> files (fst (snd (main L src os))) pidFilePath = files os pidFilePath)
      \<and> (recorded_pid L os = None \<or> (recorded_pid L os = Some pid \<and> \<not> alive os pid) \<longrightarrow>
           (fst (WriteFile os pidFilePath (strconv_Itoa L (getpid os))) \<longrightarrow>
              fst (main L src os) = Listen config (Some (parsedLogLevel config))
              \<and> files (fst (snd (main L src os))) pidFilePath = Some (strconv_Itoa L (getpid os)))
         \<and> (\<not> fst (WriteFile os pidFilePath (strconv_Itoa L (getpid os))) \<longrightarrow>
              fst (main L src os) = Exit 2)))"
proof (intro conjI impI; (elim conjE)?)
  show "isRunning L os pidFilePath \<longleftrightarrow>
      (\<exists>pid. recorded_pid L os = Some pid \<and> alive os pid \<and> may_signal os pid)"
    by (rule isRunning_iff)
next
  assume "loadConfig L src = Inl err"
  then show "main L src os = (Exit 2, os, [ErrorLoadingConfig err])"
    by (simp add: main_def)
next
  assume "loadConfig L src = Inr config" "\<not> writable os logFilePath"
  then show "main L src os = (Exit 2, os, [FailedToOpenLogFile])"
    by (simp add: main_def openLogFile_None)
next
  assume l: "loadConfig L src = Inr config" "writable os logFilePath"
    and r: "recorded_pid L os = Some pid" "alive os pid" "may_signal os pid"
  from r have "isRunning L os pidFilePath" by (auto simp: isRunning_iff)
  from main_opened(1)[OF l this]
  show "fst (main L src os) = Exit 0"
    by simp
next
  assume l: "loadConfig L src = Inr config" "writable os logFilePath"
    and r: "recorded_pid L os = Some pid" "alive os pid" "may_signal os pid"
  from r have "isRunning L os pidFilePath" by (auto simp: isRunning_iff)
  from main_opened(1)[OF l this] paths_differ
  show "files (fst (snd (main L src os))) pidFilePath = files os pidFilePath"
    by (simp add: files_logOutput)
next
  assume l: "loadConfig L src = Inr config" "writable os logFilePath"
    and r: "recorded_pid L os = None \<or> (recorded_pid L os = Some pid \<and> \<not> alive os pid)"
    and w: "fst (WriteFile os pidFilePath (strconv_Itoa L (getpid os)))"
  from r have n: "\<not> isRunning L os pidFilePath" by (auto simp: isRunning_iff)
  from main_opened(2)[OF l n] w
  show "fst (main L src os) = Listen config (Some (parsedLogLevel config))"
    by simp
next
  assume l: "loadConfig L src = Inr config" "writable os logFilePath"
    and r: "recorded_pid L os = None \<or> (recorded_pid L os = Some pid \<and> \<not> alive os pid)"
    and w: "fst (WriteFile os pidFilePath (strconv_Itoa L (getpid os)))"
  from r have n: "\<not> isRunning L os pidFilePath" by (auto simp: isRunning_iff)
  from main_opened(2)[OF l n] w
  show "files (fst (snd (main L src os))) pidFilePath = Some (strconv_Itoa L (getpid os))"
    by (simp add: files_after_write WriteFile_ok)
next
  assume l: "loadConfig L src = Inr config" "writable os logFilePath"
    and r: "recorded_pid L os = None \<or> (recorded_pid L os = Some pid \<and> \<not> alive os pid)"
    and w: "\<not> fst (WriteFile os pidFilePath (strconv_Itoa L (getpid os)))"
  from r have n: "\<not> isRunning L os pidFilePath" by (auto simp: isRunning_iff)
  from main_opened(2)[OF l n] w
  show "fst (main L src os) = Exit 2"
    by simp
qed

lemma sample_os_fields:
  "writable sample_os logFilePath"
  "recorded_pid sample_ext sample_os = Some 4242" "alive sample_os 4242" "may_signal sample_os 4242"
  "files sample_os pidFilePath = Some ''4242''"
  by (simp_all add: sample_os_def recorded_pid_def ReadFile_def sample_ext_def)

lemma sample_os_stale_fields:
  "writable sample_os_stale logFilePath"
  "recorded_pid sample_ext sample_os_stale = Some 4242" "\<not> alive sample_os_stale 4242"
  "fst (WriteFile sample_os_stale pidFilePath (strconv_Itoa sample_ext (getpid sample_os_stale)))"
  "strconv_Itoa sample_ext (getpid sample_os_stale) = ''77''"
  by (simp_all add: sample_os_stale_def sample_os_def recorded_pid_def ReadFile_def sample_ext_def
      WriteFile_def write_ok_def)

lemma sample_os_readonly_fields:
  "writable sample_os_readonly logFilePath"
  "recorded_pid sample_ext sample_os_readonly = Some 4242" "\<not> alive sample_os_readonly 4242"
  "WriteFile sample_os_readonly pidFilePath data = (False, sample_os_readonly)"
  "files sample_os_readonly pidFilePath = Some ''4242''"
  by (simp_all add: sample_os_readonly_def sample_os_stale_def sample_os_def recorded_pid_def
      ReadFile_def sample_ext_def paths_differ WriteFile_def)

lemma sample_os_full_fields:
  "writable sample_os_full logFilePath"
  "recorded_pid sample_ext sample_os_full = Some 4242" "\<not> alive sample_os_full 4242"
  "\<not> fst (WriteFile sample_os_full pidFilePath (strconv_Itoa sample_ext (getpid sample_os_full)))"
  "files (snd (WriteFile sample_os_full pidFilePath (strconv_Itoa sample_ext (getpid sample_os_full))))
     pidFilePath = Some []"
  by (simp_all add: sample_os_full_def sample_os_stale_def sample_os_def recorded_pid_def
      ReadFile_def sample_ext_def WriteFile_def write_ok_def written_def)

lemma sample_os_eperm_fields:
  "writable sample_os_eperm logFilePath"
  "recorded_pid sample_ext sample_os_eperm = Some 4242" "alive sample_os_eperm 4242"
  "\<not> may_signal sample_os_eperm 4242"
  "fst (WriteFile sample_os_eperm pidFilePath (strconv_Itoa sample_ext (getpid sample_os_eperm)))"
  "strconv_Itoa sample_ext (getpid sample_os_eperm) = ''77''"
  by (simp_all add: sample_os_eperm_def sample_os_def recorded_pid_def ReadFile_def sample_ext_def
      WriteFile_def write_ok_def)

lemma sample_os_nolog_fields:
  "\<not> writable sample_os_nolog logFilePath"
  "recorded_pid sample_ext sample_os_nolog = Some 4242" "alive sample_os_nolog 4242"
  "may_signal sample_os_nolog 4242"
  by (simp_all add: sample_os_nolog_def sample_os_def recorded_pid_def ReadFile_def sample_ext_def)

lemma sample_parsedLogLevel: "parsedLogLevel sample_config = 4"
  by (simp add: sample_config_def)

lemma loadConfig_JSONFails: "loadConfig L JSONFails = Inl ParseConfigJSON"
  by (simp add: loadConfig_def)

theorem single_instance_witness:
  "main sample_ext JSONFails sample_os = (Exit 2, sample_os, [ErrorLoadingConfig ParseConfigJSON])
   \<and> loadConfig sample_ext (Parsed sample_json) = Inr sample_config
   \<and> \<not> writable sample_os_nolog logFilePath
   \<and> main sample_ext (Parsed sample_json) sample_os_nolog = (Exit 2, sample_os_nolog, [FailedToOpenLogFile])
   \<and> writable sample_os logFilePath
   \<and> recorded_pid sample_ext sample_os = Some 4242 \<and> alive sample_os 4242 \<and> may_signal sample_os 4242
   \<and> fst (main sample_ext (Parsed sample_json) sample_os) = Exit 0
   \<and> files (fst (snd (main sample_ext (Parsed sample_json) sample_os))) pidFilePath = Some ''4242''
   \<and> writable sample_os_stale logFilePath
   \<and> recorded_pid sample_ext sample_os_stale = Some 4242 \<and> \<not> alive sample_os_stale 4242
   \<and> fst (WriteFile sample_os_stale pidFilePath (strconv_Itoa sample_ext (getpid sample_os_stale)))
   \<and> fst (main sample_ext (Parsed sample_json) sample_os_stale) = Listen sample_config (Some 4)
   \<and> files (fst (snd (main sample_ext (Parsed sample_json) sample_os_stale))) pidFilePath = Some ''77''
   \<and> writable sample_os_full logFilePath
   \<and> recorded_pid sample_ext sample_os_full = Some 4242 \<and> \<not> alive sample_os_full 4242
   \<and> \<not> fst (WriteFile sample_os_full pidFilePath (strconv_Itoa sample_ext (getpid sample_os_full)))
   \<and> fst (main sample_ext (Parsed sample_json) sample_os_full) = Exit 2"
proof -
  from single_instance [of sample_ext sample_os JSONFails ParseConfigJSON] loadConfig_JSONFails
  have a: "main sample_ext JSONFails sample_os = (Exit 2, sample_os, [ErrorLoadingConfig ParseConfigJSON])"
    by blast
  note T = single_instance [of sample_ext _ "Parsed sample_json" _ sample_config 4242]
  from T [of sample_os_nolog] loadConfig_sample sample_os_nolog_fields
  have b: "main sample_ext (Parsed sample_json) sample_os_nolog = (Exit 2, sample_os_nolog, [FailedToOpenLogFile])"
    by blast
  from T [of sample_os] loadConfig_sample sample_os_fields
  have c: "fst (main sample_ext (Parsed sample_json) sample_os) = Exit 0
     \<and> files (fst (snd (main sample_ext (Parsed sample_json) sample_os))) pidFilePath = Some ''4242''"
    by simp
  from T [of sample_os_stale] loadConfig_sample sample_os_stale_fields sample_parsedLogLevel
  have d: "fst (main sample_ext (Parsed sample_json) sample_os_stale) = Listen sample_config (Some 4)
     \<and> files (fst (snd (main sample_ext (Parsed sample_json) sample_os_stale))) pidFilePath = Some ''77''"
    by simp
  from T [of sample_os_full] loadConfig_sample sample_os_full_fields
  have e: "fst (main sample_ext (Parsed sample_json) sample_os_full) = Exit 2"
    by simp
  from a b c d e loadConfig_sample sample_os_fields sample_os_stale_fields sample_os_full_fields
    sample_os_nolog_fields
  show ?thesis by simp
qed

text \<open>
  C3 as stated fails at these inputs. The recorded process 4242 is alive and may be
  signalled, but the configuration file is no JSON, or (with the sample configuration
  loaded) the log file cannot be opened: exit status 2, not 0. The process 4242 is
  alive but may not be signalled (it belongs to another user): the probe returns
  \<^verbatim>\<open>EPERM\<close>, the process takes the pid file over and listens. The process 4242 is dead
  and the pid file cannot be opened for writing: exit status 2, the stale id stays. The
  process 4242 is dead and the disk is full: exit status 2, and the pid file is left
  empty.
\<close>

theorem acquisition_as_stated_fails:
  "recorded_pid sample_ext sample_os = Some 4242
   \<and> alive sample_os 4242 \<and> may_signal sample_os 4242
   \<and> fst (main sample_ext JSONFails sample_os) = Exit 2
   \<and> loadConfig sample_ext (Parsed sample_json) = Inr sample_config
   \<and> recorded_pid sample_ext sample_os_nolog = Some 4242
   \<and> alive sample_os_nolog 4242 \<and> may_signal sample_os_nolog 4242
   \<and> fst (main sample_ext (Parsed sample_json) sample_os_nolog) = Exit 2
   \<and> recorded_pid sample_ext sample_os_eperm = Some 4242
   \<and> alive sample_os_eperm 4242
   \<and> fst (main sample_ext (Parsed sample_json) sample_os_eperm) = Listen sample_config (Some 4)
   \<and> files (fst (snd (main sample_ext (Parsed sample_json) sample_os_eperm))) pidFilePath = Some ''77''
   \<and> recorded_pid sample_ext sample_os_readonly = Some 4242
   \<and> \<not> alive sample_os_readonly 4242
   \<and> fst (main sample_ext (Parsed sample_json) sample_os_readonly) = Exit 2
   \<and> files (fst (snd (main sample_ext (Parsed sample_json) sample_os_readonly))) pidFilePath
        = Some ''4242''
   \<and> recorded_pid sample_ext sample_os_full = Some 4242
   \<and> \<not> alive sample_os_full 4242
   \<and> fst (main sample_ext (Parsed sample_json) sample_os_full) = Exit 2
   \<and> files (fst (snd (main sample_ext (Parsed sample_json) sample_os_full))) pidFilePath = Some []"
proof -
  have j: "fst (main sample_ext JSONFails sample_os) = Exit 2"
    by (simp add: main_def loadConfig_JSONFails)
  have a: "fst (main sample_ext (Parsed sample_json) sample_os_nolog) = Exit 2"
    using loadConfig_sample sample_os_nolog_fields by (simp add: main_def openLogFile_None)
  have ne: "\<not> isRunning sample_ext sample_os_eperm pidFilePath"
    using sample_os_eperm_fields by (simp add: isRunning_iff)
  have b: "fst (main sample_ext (Parsed sample_json) sample_os_eperm) = Listen sample_config (Some 4)"
    "files (fst (snd (main sample_ext (Parsed sample_json) sample_os_eperm))) pidFilePath = Some ''77''"
    using main_opened(2)[OF loadConfig_sample sample_os_eperm_fields(1) ne]
      sample_os_eperm_fields(5)
      WriteFile_ok[OF sample_os_eperm_fields(5)] sample_os_eperm_fields(6)
    by (simp_all add: sample_parsedLogLevel files_after_write)
  have nr: "\<not> isRunning sample_ext sample_os_readonly pidFilePath"
    using sample_os_readonly_fields by (simp add: isRunning_iff)
  have c: "fst (main sample_ext (Parsed sample_json) sample_os_readonly) = Exit 2"
    "files (fst (snd (main sample_ext (Parsed sample_json) sample_os_readonly))) pidFilePath = Some ''4242''"
    using main_opened(2)[OF loadConfig_sample sample_os_readonly_fields(1) nr]
      sample_os_readonly_fields(4,5)
    by (simp_all add: files_after_write)
  have nf: "\<not> isRunning sample_ext sample_os_full pidFilePath"
    using sample_os_full_fields by (simp add: isRunning_iff)
  have d: "fst (main sample_ext (Parsed sample_json) sample_os_full) = Exit 2"
    "files (fst (snd (main sample_ext (Parsed sample_json) sample_os_full))) pidFilePath = Some []"
    using main_opened(2)[OF loadConfig_sample sample_os_full_fields(1) nf]
      sample_os_full_fields(4,5)
    by (simp_all add: files_after_write)
  from j a b c d loadConfig_sample sample_os_fields sample_os_nolog_fields sample_os_eperm_fields
    sample_os_readonly_fields sample_os_full_fields
  show ?thesis by simp
qed

section \<open>One-shot mode\<close>

lemma launches_processURL_oneshot:
  "launches (processURL_oneshot L u config rules) =
     [openInChrome_args_oneshot L (ChromeAppPath config)
        (chooseProfile_oneshot L u rules (DefaultProfileDirectory config)) u]"
  by (simp add: processURL_oneshot_def Let_def split: option.splits)

text \<open>
  C4. After a successful load the one-shot process waits for the first URL or for the
  timer of \<^verbatim>\<open>4 * time.Second\<close>. If the first URL arrives before the timer fires, that
  URL alone is processed, with exactly one launch, whatever arrives later, and the exit
  status is 0 (also when the launch fails). If no URL arrives, or the first one arrives
  after the timer has fired, the process writes the line
  \<^verbatim>\<open>No URLs received within timeout\<close> and exits with status 1.
\<close>

theorem one_shot:
  "loadConfig_oneshot L src = Inr (config, rules) \<longrightarrow>
     timeout = 4 * 1000000000
   \<and> (t < timeout \<longrightarrow>
        main_oneshot L src ((t, url) # later) tie = (processURL_oneshot L url config rules, 0)
        \<and> launches (fst (main_oneshot L src ((t, url) # later) tie))
            = [openInChrome_args_oneshot L (ChromeAppPath config)
                 (chooseProfile_oneshot L url rules (DefaultProfileDirectory config)) url])
   \<and> main_oneshot L src [] tie = ([NoURLsReceived], 1)
   \<and> (timeout < t \<longrightarrow> main_oneshot L src ((t, url) # later) tie = ([NoURLsReceived], 1))"
  by (simp add: main_oneshot_def launches_processURL_oneshot timeout_def time_Second_def)

theorem one_shot_witness:
  "loadConfig_oneshot sample_ext (Parsed sample_json_oneshot) = Inr (sample_config_oneshot, sample_rules)
   \<and> (3999999999::nat) < timeout
   \<and> main_oneshot sample_ext (Parsed sample_json_oneshot)
        [(3999999999, ''https://github.com/acme/repo''), (3999999999, ''https://example.com'')] False
      = ([Routing ''https://github.com/acme/repo'' ''Work'',
          SpawnStart ''open'' [''-na'', ''/Applications/Google Chrome.app'', ''--args'',
             ''--profile-directory=Work'', ''https://github.com/acme/repo''],
          SpawnEnd None], 0)
   \<and> main_oneshot sample_ext (Parsed sample_json_oneshot) [] False = ([NoURLsReceived], 1)
   \<and> timeout < (4000000001::nat)
   \<and> main_oneshot sample_ext (Parsed sample_json_oneshot)
        [(4000000001, ''https://github.com/acme/repo'')] True = ([NoURLsReceived], 1)"
proof -
  note T = one_shot [of sample_ext "Parsed sample_json_oneshot" sample_config_oneshot sample_rules]
  have lt: "(3999999999::nat) < timeout" "timeout < (4000000001::nat)"
    by (simp_all add: timeout_def time_Second_def)
  have f: "ChromeAppPath sample_config_oneshot = ''/Applications/Google Chrome.app''"
    "DefaultProfileDirectory sample_config_oneshot = ''Default''"
    by (simp_all add: sample_config_oneshot_def)
  have c: "chooseProfile_oneshot sample_ext ''https://github.com/acme/repo'' sample_rules
      ''Default'' = ''Work''"
    by (simp add: sample_rules_def sample_match_github)
  have r: "cmd_Run sample_ext ''open'' [''-na'', ''/Applications/Google Chrome.app'', ''--args'',
             ''--profile-directory=Work'', ''https://github.com/acme/repo''] = None"
    by (simp add: sample_ext_def)
  have u: "url_Parse sample_ext ''https://github.com/acme/repo'' = Some ''https''"
    by (simp add: sample_ext_def HasPrefix_def)
  have p: "processURL_oneshot sample_ext ''https://github.com/acme/repo'' sample_config_oneshot sample_rules
      = [Routing ''https://github.com/acme/repo'' ''Work'',
          SpawnStart ''open'' [''-na'', ''/Applications/Google Chrome.app'', ''--args'',
             ''--profile-directory=Work'', ''https://github.com/acme/repo''],
          SpawnEnd None]"
    by (simp add: processURL_oneshot_def Let_def f c openInChrome_oneshot_def openInChrome_args_oneshot_eq u r)
  from T [of 3999999999 "''https://github.com/acme/repo''" "[(3999999999, ''https://example.com'')]" False]
    loadConfig_oneshot_sample lt p
  have a: "main_oneshot sample_ext (Parsed sample_json_oneshot)
        [(3999999999, ''https://github.com/acme/repo''), (3999999999, ''https://example.com'')] False
      = ([Routing ''https://github.com/acme/repo'' ''Work'',
          SpawnStart ''open'' [''-na'', ''/Applications/Google Chrome.app'', ''--args'',
             ''--profile-directory=Work'', ''https://github.com/acme/repo''],
          SpawnEnd None], 0)"
    and b: "main_oneshot sample_ext (Parsed sample_json_oneshot) [] False = ([NoURLsReceived], 1)"
    by simp_all
  from T [of 4000000001 "''https://github.com/acme/repo''" "[]" True]
    loadConfig_oneshot_sample lt
  have d: "main_oneshot sample_ext (Parsed sample_json_oneshot)
        [(4000000001, ''https://github.com/acme/repo'')] True = ([NoURLsReceived], 1)"
    by simp
  from a b d lt loadConfig_oneshot_sample show ?thesis by simp
qed

section \<open>The dispatcher\<close>

lemma processURL_halves:
  "processURL L u config = processURL_begin L u config @ processURL_end L u config"
  by (simp add: processURL_def processURL_begin_def processURL_end_def Let_def)

lemma dispatched_init: "dispatched L config urls [] (init urls)"
  by (simp add: dispatched_def init_def in_progress_def)

lemma step_dispatched:
  assumes "dispatched L config urls done s" and "step L config cap a s = Some s'"
  shows "\<exists>done'. dispatched L config urls done' s'"
proof (cases a)
  case Send
  with assms(2) obtain u us where p: "pending s = u # us"
    by (auto simp: step_def split: list.splits)
  show ?thesis
  proof (cases "worker s = None \<and> urlListener s = []")
    case True
    with assms(2) Send p
    have s': "s' = s\<lparr>pending := us, worker := Some u,
                     trace := trace s @ processURL_begin L u config\<rparr>"
      by (simp add: step_def)
    have "dispatched L config urls done s'"
      using assms(1) True p by (simp add: dispatched_def s' in_progress_def)
    then show ?thesis ..
  next
    case False
    with assms(2) Send p
    have s': "s' = s\<lparr>pending := us, urlListener := urlListener s @ [u]\<rparr>"
      by (auto simp: step_def split: if_splits)
    have "dispatched L config urls done s'"
      using assms(1) p by (simp add: dispatched_def s' in_progress_def)
    then show ?thesis ..
  qed
next
  case Recv
  with assms(2) obtain u us where b: "urlListener s = u # us" and w: "worker s = None"
    and s': "s' = s\<lparr>urlListener := us, worker := Some u,
                     trace := trace s @ processURL_begin L u config\<rparr>"
    by (auto simp: step_def split: list.splits if_splits)
  have "dispatched L config urls done s'"
    using assms(1) b w by (simp add: dispatched_def s' in_progress_def)
  then show ?thesis ..
next
  case Finish
  with assms(2) obtain u where w: "worker s = Some u"
    and s': "s' = s\<lparr>worker := None, trace := trace s @ processURL_end L u config\<rparr>"
    by (auto simp: step_def split: option.splits)
  have "dispatched L config urls (done @ [u]) s'"
    using assms(1) w by (simp add: dispatched_def s' in_progress_def processURL_halves)
  then show ?thesis ..
qed

lemma run_dispatched:
  "dispatched L config urls done s \<Longrightarrow> run L config cap sched s = Some s'
   \<Longrightarrow> \<exists>done'. dispatched L config urls done' s'"
proof (induction sched arbitrary: s "done")
  case Nil
  then show ?case by auto
next
  case (Cons a sched)
  from Cons.prems(2) obtain s1 where s1: "step L config cap a s = Some s1"
    and r: "run L config cap sched s1 = Some s'"
    by (auto split: option.splits)
  from step_dispatched[OF Cons.prems(1) s1] obtain done1 where "dispatched L config urls done1 s1" ..
  from Cons.IH[OF this r] show ?case .
qed

lemma reachable_dispatched:
  "run L config cap sched (init urls) = Some s \<Longrightarrow> \<exists>done. dispatched L config urls done s"
  using run_dispatched[OF dispatched_init] .

text \<open>The buffer never exceeds the capacity.\<close>

lemma step_buffer_bound:
  "length (urlListener s) \<le> cap \<Longrightarrow> step L config cap a s = Some s'
   \<Longrightarrow> length (urlListener s') \<le> cap"
  by (cases a) (auto simp: step_def split: list.splits option.splits if_splits)

lemma run_buffer_bound:
  "length (urlListener s) \<le> cap \<Longrightarrow> run L config cap sched s = Some s'
   \<Longrightarrow> length (urlListener s') \<le> cap"
proof (induction sched arbitrary: s)
  case Nil
  then show ?case by simp
next
  case (Cons a sched)
  from Cons.prems(2) obtain s1 where s1: "step L config cap a s = Some s1"
    and r: "run L config cap sched s1 = Some s'"
    by (auto split: option.splits)
  from Cons.IH[OF step_buffer_bound[OF Cons.prems(1) s1] r] show ?case .
qed

lemma reachable_unbuffered:
  "run L config urlListener_cap sched (init urls) = Some s \<Longrightarrow> urlListener s = []"
  using run_buffer_bound[of "init urls" urlListener_cap L config sched s]
  by (simp add: init_def urlListener_cap_def)

text \<open>Launches in a trace of completely processed URLs.\<close>

lemma serial_processURL:
  "serial False (processURL L u config @ es) = serial False es"
  by (simp add: processURL_def Let_def split: option.splits)

lemma serial_done:
  "serial False (concat (map (\<lambda>u. processURL L u config) done) @ es) = serial False es"
  by (induction "done") (simp_all add: serial_processURL)

lemma serial_begin:
  "serial False (concat (map (\<lambda>u. processURL_begin L u config) (in_progress s)))"
  by (simp add: in_progress_def processURL_begin_def Let_def split: option.splits)

lemma dispatched_serial: "dispatched L config urls done s \<Longrightarrow> serial False (trace s)"
  by (simp add: dispatched_def serial_done serial_begin)

lemma launches_append: "launches (xs @ ys) = launches xs @ launches ys"
  by (induction xs rule: launches.induct) simp_all

lemma failures_append: "failures (xs @ ys) = failures xs @ failures ys"
  by (induction xs rule: failures.induct) simp_all

lemma launches_done:
  "launches (concat (map (\<lambda>u. processURL L u config) done)) =
     map (\<lambda>u. openInChrome_args L (ChromeAppPath config) (chooseProfile L u config) u) done"
  by (induction "done") (simp_all add: launches_append launches_processURL)

lemma failures_processURL:
  "failures (processURL L u config) =
     (case openInChrome L (ChromeAppPath config) (chooseProfile L u config) u of
        None \<Rightarrow> [] | Some err \<Rightarrow> [err])"
  by (simp add: processURL_def Let_def split: option.splits)

lemma failures_done:
  "failures (concat (map (\<lambda>u. processURL L u config) done)) =
     concat (map (\<lambda>u. case openInChrome L (ChromeAppPath config) (chooseProfile L u config) u of
                         None \<Rightarrow> [] | Some err \<Rightarrow> [err]) done)"
  by (induction "done") (simp_all add: failures_append failures_processURL)

lemma dispatched_quiescent:
  "dispatched L config urls done s \<Longrightarrow> quiescent s \<Longrightarrow>
   done = urls \<and> trace s = concat (map (\<lambda>u. processURL L u config) urls)"
  by (simp add: dispatched_def quiescent_def in_progress_def)

lemma run_fifo_schedule:
  "worker s = None \<Longrightarrow> urlListener s = [] \<Longrightarrow>
   run L config cap (fifo_schedule (pending s)) s =
     Some (s\<lparr>pending := [], worker := None,
             trace := trace s @ concat (map (\<lambda>u. processURL L u config) (pending s))\<rparr>)"
proof (induction "pending s" arbitrary: s)
  case Nil
  then show ?case by simp
next
  case (Cons u us)
  let ?s2 = "s\<lparr>pending := us, worker := None,
                trace := trace s @ processURL_begin L u config @ processURL_end L u config\<rparr>"
  have p: "pending s = u # us" using Cons.hyps(2) by simp
  have "run L config cap (fifo_schedule (pending s)) s = run L config cap (fifo_schedule us) ?s2"
    using Cons.prems by (simp add: p step_def)
  also have "\<dots> = run L config cap (fifo_schedule (pending ?s2)) ?s2"
    by simp
  also have "\<dots> =
     Some (?s2\<lparr>pending := [], worker := None,
                trace := trace ?s2 @ concat (map (\<lambda>u. processURL L u config) (pending ?s2))\<rparr>)"
    by (rule Cons.hyps(1)) (simp_all add: Cons.prems)
  also have "\<dots> = Some (s\<lparr>pending := [], worker := None,
             trace := trace s @ concat (map (\<lambda>u. processURL L u config) (pending s))\<rparr>)"
    by (simp add: p processURL_halves)
  finally show ?case .
qed

lemma run_fifo_schedule_init:
  "run L config cap (fifo_schedule urls) (init urls) =
     Some \<lparr>pending = [], urlListener = [], worker = None,
           trace = concat (map (\<lambda>u. processURL L u config) urls)\<rparr>"
  using run_fifo_schedule[of "init urls" L config cap] by (simp add: init_def)

lemma step_budget:
  "step L config cap a s = Some s' \<Longrightarrow> Suc (budget s') \<le> budget s"
  by (cases a)
    (auto simp: step_def budget_def in_progress_def split: list.splits option.splits if_splits)

lemma run_budget:
  "run L config cap sched s = Some s' \<Longrightarrow> length sched + budget s' \<le> budget s"
proof (induction sched arbitrary: s)
  case Nil
  then show ?case by simp
next
  case (Cons a sched)
  from Cons.prems obtain s1 where s1: "step L config cap a s = Some s1"
    and r: "run L config cap sched s1 = Some s'"
    by (auto split: option.splits)
  from Cons.IH[OF r] step_budget[OF s1] show ?case by simp
qed

lemma run_length:
  "run L config cap sched (init urls) = Some s \<Longrightarrow> length sched \<le> 3 * length urls"
  using run_budget[of L config cap sched "init urls" s]
  by (simp add: budget_def init_def in_progress_def)

lemma Finish_enabled:
  "worker s = Some u \<Longrightarrow>
   step L config cap Finish s = Some (s\<lparr>worker := None, trace := trace s @ processURL_end L u config\<rparr>)"
  by (simp add: step_def)

lemma Send_enabled_unbuffered:
  "urlListener s = [] \<Longrightarrow>
   (\<exists>s'. step L config urlListener_cap Send s = Some s') \<longleftrightarrow> (pending s \<noteq> [] \<and> worker s = None)"
  by (auto simp: step_def urlListener_cap_def split: list.splits)

lemma Send_blocked_unbuffered:
  "urlListener s = [] \<Longrightarrow> worker s = Some u \<Longrightarrow> step L config urlListener_cap Send s = None"
  by (simp add: step_def urlListener_cap_def split: list.splits)

lemma not_stuck:
  assumes "urlListener s = []" and "\<not> quiescent s"
  shows "\<exists>a. step L config cap a s \<noteq> None"
proof (cases "worker s")
  case None
  with assms obtain u us where "pending s = u # us"
    by (cases "pending s") (auto simp: quiescent_def)
  with None assms(1) have "step L config cap Send s \<noteq> None"
    by (simp add: step_def)
  then show ?thesis ..
next
  case (Some u)
  then have "step L config cap Finish s \<noteq> None" by (simp add: step_def)
  then show ?thesis ..
qed

lemma sample_chooseProfile_ok:
  "chooseProfile sample_ext ''ok'' sample_config = ''Work''"
  "chooseProfile sample_ext ''later'' sample_config = ''Work''"
  "chooseProfile sample_ext ''fail'' sample_config = ''Work''"
  by (simp_all add: chooseProfile_def sample_config_def sample_ext_def HasPrefix_def
      StrategyForUnknownUrlsUseDefaultProfile_def)

lemma sample_args:
  "openInChrome_args sample_ext (ChromeAppPath sample_config) ''Work'' ''ok''
     = [''-na'', ''/Applications/Google Chrome.app'', ''--args'', ''--profile-directory=Work'', ''http://ok'']"
  "openInChrome_args sample_ext (ChromeAppPath sample_config) ''Work'' ''later''
     = [''-na'', ''/Applications/Google Chrome.app'', ''--args'', ''--profile-directory=Work'', ''http://later'']"
  "openInChrome_args sample_ext (ChromeAppPath sample_config) ''Work'' ''fail''
     = [''-na'', ''/Applications/Google Chrome.app'', ''--args'', ''--profile-directory=Work'', ''http://fail'']"
  by (simp_all add: openInChrome_args_eq sample_config_def) (simp_all add: sample_ext_def HasPrefix_def)

lemma sample_cmd_Run:
  "cmd_Run sample_ext ''open'' [''-na'', ''/Applications/Google Chrome.app'', ''--args'', ''--profile-directory=Work'', ''http://ok''] = None"
  "cmd_Run sample_ext ''open'' [''-na'', ''/Applications/Google Chrome.app'', ''--args'', ''--profile-directory=Work'', ''http://later''] = None"
  "cmd_Run sample_ext ''open'' [''-na'', ''/Applications/Google Chrome.app'', ''--args'', ''--profile-directory=Work'', ''http://fail''] = Some ''exit status 1''"
  by (simp_all add: sample_ext_def)

lemma sample_processURL:
  "processURL sample_ext ''ok'' sample_config =
     [Routing ''ok'' ''Work'',
      SpawnStart ''open'' [''-na'', ''/Applications/Google Chrome.app'', ''--args'', ''--profile-directory=Work'', ''http://ok''],
      SpawnEnd None]"
  "processURL sample_ext ''later'' sample_config =
     [Routing ''later'' ''Work'',
      SpawnStart ''open'' [''-na'', ''/Applications/Google Chrome.app'', ''--args'', ''--profile-directory=Work'', ''http://later''],
      SpawnEnd None]"
  "processURL sample_ext ''fail'' sample_config =
     [Routing ''fail'' ''Work'',
      SpawnStart ''open'' [''-na'', ''/Applications/Google Chrome.app'', ''--args'', ''--profile-directory=Work'', ''http://fail''],
      SpawnEnd (Some ''exit status 1''), LaunchFailed ''exit status 1'']"
  by (simp_all add: processURL_def Let_def sample_chooseProfile_ok sample_args openInChrome_def sample_cmd_Run)

lemma sample_run_busy:
  "run sample_ext sample_config urlListener_cap [Send] (init [''ok'', ''later'']) = Some sample_busy"
  by (simp add: step_def init_def sample_busy_def processURL_begin_def Let_def
      sample_chooseProfile_ok sample_args)

section \<open>Order of processing\<close>

text \<open>
  C5. In every state the listener can reach, under every schedule of sends, receives and
  returns of launches: the URLs handed in split into those processed, the one with the
  worker and those still to be sent, in the order in which they were handed in; the
  trace is the complete \<^verbatim>\<open>processURL\<close> event sequence (routing line, launch, return) of
  each processed URL in that order, followed by the started part of the one in progress;
  no launch starts before the previous one has returned. When everything is processed
  the trace is that of processing the URLs one after the other, and such a run exists.
\<close>

theorem dispatcher_order:
  "(run L config urlListener_cap sched (init urls) = Some s \<longrightarrow>
      (\<exists>done. urls = done @ in_progress s @ pending s
          \<and> trace s = concat (map (\<lambda>u. processURL L u config) done)
                        @ concat (map (\<lambda>u. processURL_begin L u config) (in_progress s)))
      \<and> serial False (trace s)
      \<and> (quiescent s \<longrightarrow> trace s = concat (map (\<lambda>u. processURL L u config) urls)))
   \<and> run L config urlListener_cap (fifo_schedule urls) (init urls) =
       Some \<lparr>pending = [], urlListener = [], worker = None,
             trace = concat (map (\<lambda>u. processURL L u config) urls)\<rparr>"
proof (intro conjI impI)
  assume r: "run L config urlListener_cap sched (init urls) = Some s"
  from reachable_dispatched[OF r] obtain "done" where d: "dispatched L config urls done s" ..
  from reachable_unbuffered[OF r] have b: "urlListener s = []" .
  from d b show "\<exists>done. urls = done @ in_progress s @ pending s
          \<and> trace s = concat (map (\<lambda>u. processURL L u config) done)
                        @ concat (map (\<lambda>u. processURL_begin L u config) (in_progress s))"
    by (auto simp: dispatched_def)
  from d show "serial False (trace s)" by (rule dispatched_serial)
  assume "quiescent s"
  with d show "trace s = concat (map (\<lambda>u. processURL L u config) urls)"
    by (simp add: dispatched_quiescent)
next
  show "run L config urlListener_cap (fifo_schedule urls) (init urls) =
       Some \<lparr>pending = [], urlListener = [], worker = None,
             trace = concat (map (\<lambda>u. processURL L u config) urls)\<rparr>"
    by (rule run_fifo_schedule_init)
qed

theorem dispatcher_order_witness:
  "run sample_ext sample_config urlListener_cap [Send] (init [''ok'', ''later'']) = Some sample_busy
   \<and> serial False (trace sample_busy)
   \<and> run sample_ext sample_config urlListener_cap [Send, Finish, Send, Finish] (init [''ok'', ''later'']) =
       Some \<lparr>pending = [], urlListener = [], worker = None,
             trace = [Routing ''ok'' ''Work'',
                      SpawnStart ''open'' [''-na'', ''/Applications/Google Chrome.app'', ''--args'', ''--profile-directory=Work'', ''http://ok''],
                      SpawnEnd None,
                      Routing ''later'' ''Work'',
                      SpawnStart ''open'' [''-na'', ''/Applications/Google Chrome.app'', ''--args'', ''--profile-directory=Work'', ''http://later''],
                      SpawnEnd None]\<rparr>"
proof -
  note T = dispatcher_order [of sample_ext sample_config _ "[''ok'', ''later'']"]
  from T [of "[Send]" sample_busy] sample_run_busy
  have a: "serial False (trace sample_busy)" by blast
  from T [of "[]" "init []"]
  have b: "run sample_ext sample_config urlListener_cap [Send, Finish, Send, Finish] (init [''ok'', ''later'']) =
       Some \<lparr>pending = [], urlListener = [], worker = None,
             trace = [Routing ''ok'' ''Work'',
                      SpawnStart ''open'' [''-na'', ''/Applications/Google Chrome.app'', ''--args'', ''--profile-directory=Work'', ''http://ok''],
                      SpawnEnd None,
                      Routing ''later'' ''Work'',
                      SpawnStart ''open'' [''-na'', ''/Applications/Google Chrome.app'', ''--args'', ''--profile-directory=Work'', ''http://later''],
                      SpawnEnd None]\<rparr>"
    by (simp add: sample_processURL)
  from a b sample_run_busy show ?thesis by simp
qed

section \<open>Failed launches\<close>

lemma failures_logged:
  "failures (logged lvl es) = (if IsLevelEnabled lvl ErrorLevel then failures es else [])"
proof (induction es)
  case Nil
  then show ?case by (simp add: logged_def)
next
  case (Cons e es)
  then show ?case by (cases e) (auto simp: logged_def)
qed

lemma main_Listen:
  "fst (main L src os) = Listen config lg \<Longrightarrow>
   loadConfig L src = Inr config \<and> lg = Some (parsedLogLevel config)"
  by (auto simp: main_def Let_def split: sum.splits option.splits if_splits prod.splits)

text \<open>
  C8 (amended). A failed launch makes \<^verbatim>\<open>processURL\<close> call \<^verbatim>\<open>logger.Errorf\<close> exactly
  once (and not at all when the launch succeeds); the logger writes that line to the log
  when its level, the configured log level, is error or more verbose, and writes
  nothing when it is fatal or panic. The failure has no other effect. The logger that
  \<^verbatim>\<open>main\<close> hands to the worker is never nil, so \<^verbatim>\<open>processURL\<close> returns for every URL,
  whatever \<^verbatim>\<open>url.Parse\<close> and the command make of it. In every reachable state of the
  listener a running launch, failed or not, can return, and this puts the worker back
  into its receive; as long as a URL is unprocessed some step is possible; every
  schedule is finite. So a run goes on until all URLs are processed, and then every URL
  handed in has been launched, in order, with one call of \<^verbatim>\<open>logger.Errorf\<close> for each
  launch that failed.
\<close>

theorem launch_failure_isolated:
  "failures (processURL L u config) =
     (case openInChrome L (ChromeAppPath config) (chooseProfile L u config) u of
        None \<Rightarrow> [] | Some err \<Rightarrow> [err])
   \<and> failures (logged lvl (processURL L u config)) =
       (if IsLevelEnabled lvl ErrorLevel then failures (processURL L u config) else [])
   \<and> (fst (main L src os) = Listen config logger \<longrightarrow>
        logger = Some (parsedLogLevel config)
        \<and> processURL_global L logger u config = Some (processURL L u config))
   \<and> (loadConfig L (Parsed c) = Inr config \<longrightarrow>
        logrus_ParseLevel L (effectiveLogLevel (LogLevel c)) = Some (parsedLogLevel config))
   \<and> (run L config urlListener_cap sched (init urls) = Some s \<longrightarrow>
        length sched \<le> 3 * length urls
      \<and> (worker s = Some u \<longrightarrow>
           step L config urlListener_cap Finish s
             = Some (s\<lparr>worker := None, trace := trace s @ processURL_end L u config\<rparr>))
      \<and> (\<not> quiescent s \<longrightarrow> (\<exists>a. step L config urlListener_cap a s \<noteq> None))
      \<and> (quiescent s \<longrightarrow>
           launches (trace s)
             = map (\<lambda>u. openInChrome_args L (ChromeAppPath config) (chooseProfile L u config) u) urls
         \<and> failures (trace s)
             = concat (map (\<lambda>u. case openInChrome L (ChromeAppPath config) (chooseProfile L u config) u of
                                  None \<Rightarrow> [] | Some err \<Rightarrow> [err]) urls)))
   \<and> (\<exists>s. run L config urlListener_cap (fifo_schedule urls) (init urls) = Some s \<and> quiescent s)"
proof (intro conjI impI)
  show "failures (processURL L u config) =
     (case openInChrome L (ChromeAppPath config) (chooseProfile L u config) u of
        None \<Rightarrow> [] | Some err \<Rightarrow> [err])"
    by (rule failures_processURL)
next
  show "failures (logged lvl (processURL L u config)) =
       (if IsLevelEnabled lvl ErrorLevel then failures (processURL L u config) else [])"
    by (rule failures_logged)
next
  assume m: "fst (main L src os) = Listen config logger"
  from main_Listen[OF m] show l: "logger = Some (parsedLogLevel config)" by simp
  show "processURL_global L logger u config = Some (processURL L u config)"
    by (simp add: processURL_global_def l)
next
  assume "loadConfig L (Parsed c) = Inr config"
  then show "logrus_ParseLevel L (effectiveLogLevel (LogLevel c)) = Some (parsedLogLevel config)"
    by (auto simp: loadConfig_Parsed split: sum.splits option.splits)
next
  assume r: "run L config urlListener_cap sched (init urls) = Some s"
  from reachable_dispatched[OF r] obtain "done" where d: "dispatched L config urls done s" ..
  from reachable_unbuffered[OF r] have b: "urlListener s = []" .
  from r show "length sched \<le> 3 * length urls" by (rule run_length)
  {
    assume "worker s = Some u"
    then show "step L config urlListener_cap Finish s
             = Some (s\<lparr>worker := None, trace := trace s @ processURL_end L u config\<rparr>)"
      by (rule Finish_enabled)
  }
  {
    assume "\<not> quiescent s"
    with b show "\<exists>a. step L config urlListener_cap a s \<noteq> None" by (rule not_stuck)
  }
  {
    assume q: "quiescent s"
    from dispatched_quiescent[OF d q]
    have t: "trace s = concat (map (\<lambda>u. processURL L u config) urls)" by simp
    show "launches (trace s)
             = map (\<lambda>u. openInChrome_args L (ChromeAppPath config) (chooseProfile L u config) u) urls"
      unfolding t by (rule launches_done)
    show "failures (trace s)
             = concat (map (\<lambda>u. case openInChrome L (ChromeAppPath config) (chooseProfile L u config) u of
                                  None \<Rightarrow> [] | Some err \<Rightarrow> [err]) urls)"
      unfolding t by (rule failures_done)
  }
next
  show "\<exists>s. run L config urlListener_cap (fifo_schedule urls) (init urls) = Some s \<and> quiescent s"
    by (simp add: run_fifo_schedule_init quiescent_def)
qed

lemma sample_run_final:
  "run sample_ext sample_config urlListener_cap [Send, Finish, Send, Finish] (init [''fail'', ''later''])
     = Some sample_final"
  using run_fifo_schedule_init[of sample_ext sample_config urlListener_cap "[''fail'', ''later'']"]
  by (simp add: sample_processURL sample_final_def)

lemma chooseProfile_LogLevel:
  "chooseProfile L u (config\<lparr>LogLevel := l, parsedLogLevel := p\<rparr>) = chooseProfile L u config"
  by (simp add: chooseProfile_def split: option.splits)

lemma processURL_LogLevel:
  "processURL L u (config\<lparr>LogLevel := l, parsedLogLevel := p\<rparr>) = processURL L u config"
  by (simp add: processURL_def chooseProfile_LogLevel)

lemma loadConfig_sample_fatal:
  "loadConfig sample_ext (Parsed sample_json_fatal) = Inr sample_config_fatal"
  by (simp add: loadConfig_def sample_ext_def sample_json_def sample_config_def applyDefaults_def
      sample_json_fatal_def sample_config_fatal_def)

lemma sample_main_listen:
  "fst (main sample_ext (Parsed sample_json) sample_os_stale) = Listen sample_config (Some 4)"
  "fst (main sample_ext (Parsed sample_json_fatal) sample_os_stale) = Listen sample_config_fatal (Some 1)"
proof -
  have n: "\<not> isRunning sample_ext sample_os_stale pidFilePath"
    using sample_os_stale_fields by (simp add: isRunning_iff)
  show "fst (main sample_ext (Parsed sample_json) sample_os_stale) = Listen sample_config (Some 4)"
    using main_opened(2)[OF loadConfig_sample sample_os_stale_fields(1) n]
      sample_os_stale_fields(4)
    by (simp add: sample_parsedLogLevel)
  show "fst (main sample_ext (Parsed sample_json_fatal) sample_os_stale) = Listen sample_config_fatal (Some 1)"
    using main_opened(2)[OF loadConfig_sample_fatal sample_os_stale_fields(1) n]
      sample_os_stale_fields(4)
    by (simp add: sample_config_fatal_def)
qed

theorem launch_failure_isolated_witness:
  "run sample_ext sample_config urlListener_cap [Send, Finish, Send, Finish] (init [''fail'', ''later''])
     = Some sample_final
   \<and> quiescent sample_final
   \<and> openInChrome sample_ext (ChromeAppPath sample_config)
        (chooseProfile sample_ext ''fail'' sample_config) ''fail'' = Some ''exit status 1''
   \<and> failures (processURL sample_ext ''fail'' sample_config) = [''exit status 1'']
   \<and> loadConfig sample_ext (Parsed sample_json) = Inr sample_config
   \<and> logrus_ParseLevel sample_ext (effectiveLogLevel (LogLevel sample_json)) = Some 4
   \<and> IsLevelEnabled 4 ErrorLevel
   \<and> failures (logged 4 (processURL sample_ext ''fail'' sample_config)) = [''exit status 1'']
   \<and> fst (main sample_ext (Parsed sample_json) sample_os_stale) = Listen sample_config (Some 4)
   \<and> processURL_global sample_ext (Some 4) ''fail'' sample_config
        = Some (processURL sample_ext ''fail'' sample_config)
   \<and> launches (trace sample_final)
        = [ [''-na'', ''/Applications/Google Chrome.app'', ''--args'', ''--profile-directory=Work'', ''http://fail''],
           [''-na'', ''/Applications/Google Chrome.app'', ''--args'', ''--profile-directory=Work'', ''http://later''] ]
   \<and> failures (trace sample_final) = [''exit status 1'']
   \<and> run sample_ext sample_config urlListener_cap [Send] (init [''ok'', ''later'']) = Some sample_busy
   \<and> worker sample_busy = Some ''ok''
   \<and> \<not> quiescent sample_busy
   \<and> step sample_ext sample_config urlListener_cap Finish sample_busy
        = Some (sample_busy\<lparr>worker := None,
              trace := trace sample_busy @ processURL_end sample_ext ''ok'' sample_config\<rparr>)"
proof -
  have q: "quiescent sample_final" "\<not> quiescent sample_busy" "worker sample_busy = Some ''ok''"
    by (simp_all add: quiescent_def sample_final_def sample_busy_def)
  have o: "openInChrome sample_ext (ChromeAppPath sample_config)
        (chooseProfile sample_ext ''fail'' sample_config) ''fail'' = Some ''exit status 1''"
    "openInChrome sample_ext (ChromeAppPath sample_config)
        (chooseProfile sample_ext ''later'' sample_config) ''later'' = None"
    by (simp_all add: openInChrome_def sample_chooseProfile_ok sample_args sample_cmd_Run)
  have e: "IsLevelEnabled 4 ErrorLevel"
    by (simp add: IsLevelEnabled_def ErrorLevel_def word_le_nat_alt)
  from launch_failure_isolated [of sample_ext "''fail''" sample_config 4
      "Parsed sample_json" sample_os_stale "Some 4" sample_json
      "[Send, Finish, Send, Finish]" "[''fail'', ''later'']" sample_final]
    sample_run_final q o e sample_main_listen(1) loadConfig_sample
  have a: "failures (processURL sample_ext ''fail'' sample_config) = [''exit status 1'']"
    and a2: "failures (logged 4 (processURL sample_ext ''fail'' sample_config)) = [''exit status 1'']"
    and a3: "processURL_global sample_ext (Some 4) ''fail'' sample_config
        = Some (processURL sample_ext ''fail'' sample_config)"
    and a4: "logrus_ParseLevel sample_ext (effectiveLogLevel (LogLevel sample_json)) = Some 4"
    and b: "launches (trace sample_final)
        = [ [''-na'', ''/Applications/Google Chrome.app'', ''--args'', ''--profile-directory=Work'', ''http://fail''],
           [''-na'', ''/Applications/Google Chrome.app'', ''--args'', ''--profile-directory=Work'', ''http://later''] ]"
    and c: "failures (trace sample_final) = [''exit status 1'']"
    by (simp_all add: sample_chooseProfile_ok sample_args sample_parsedLogLevel)
  from launch_failure_isolated [of sample_ext "''ok''" sample_config 4
      "Parsed sample_json" sample_os_stale "Some 4" sample_json
      "[Send]" "[''ok'', ''later'']" sample_busy]
    sample_run_busy q
  have d: "step sample_ext sample_config urlListener_cap Finish sample_busy
        = Some (sample_busy\<lparr>worker := None,
              trace := trace sample_busy @ processURL_end sample_ext ''ok'' sample_config\<rparr>)"
    by simp
  from a a2 a3 a4 b c d q o e sample_run_final sample_run_busy sample_main_listen(1)
    loadConfig_sample
  show ?thesis by simp
qed

text \<open>
  C8 as stated has every failed launch reported by an error line. The sample
  configuration with the log level \<^verbatim>\<open>fatal\<close> loads, the listener starts with a logger
  of that level, the launch of the URL \<^verbatim>\<open>fail\<close> fails, and the logger writes nothing
  of what \<^verbatim>\<open>processURL\<close> hands to it.
\<close>

theorem failed_launch_unlogged_at_fatal:
  "loadConfig sample_ext (Parsed sample_json_fatal) = Inr sample_config_fatal
   \<and> fst (main sample_ext (Parsed sample_json_fatal) sample_os_stale)
       = Listen sample_config_fatal (Some FatalLevel)
   \<and> openInChrome sample_ext (ChromeAppPath sample_config_fatal)
        (chooseProfile sample_ext ''fail'' sample_config_fatal) ''fail'' = Some ''exit status 1''
   \<and> failures (processURL sample_ext ''fail'' sample_config_fatal) = [''exit status 1'']
   \<and> logged FatalLevel (processURL sample_ext ''fail'' sample_config_fatal) = []"
proof -
  have p: "processURL sample_ext ''fail'' sample_config_fatal = processURL sample_ext ''fail'' sample_config"
    unfolding sample_config_fatal_def by (rule processURL_LogLevel)
  have o: "openInChrome sample_ext (ChromeAppPath sample_config_fatal)
        (chooseProfile sample_ext ''fail'' sample_config_fatal) ''fail'' = Some ''exit status 1''"
    using sample_args(3) sample_cmd_Run(3)
    by (simp add: openInChrome_def sample_config_fatal_def chooseProfile_LogLevel
        sample_chooseProfile_ok(3))
  have f: "failures (processURL sample_ext ''fail'' sample_config_fatal) = [''exit status 1'']"
    by (simp add: p sample_processURL)
  have l: "logged FatalLevel (processURL sample_ext ''fail'' sample_config_fatal) = []"
    by (simp add: p sample_processURL logged_def IsLevelEnabled_def FatalLevel_def ErrorLevel_def
        DebugLevel_def word_le_nat_alt)
  from loadConfig_sample_fatal sample_main_listen(2) o f l show ?thesis
    by (simp add: FatalLevel_def)
qed

section \<open>The hand-off from the notifier\<close>

text \<open>
  C9 (amended). The channel has no buffer: in every reachable state of the listener it
  holds no URL, and the send of \<^verbatim>\<open>HandleURL\<close> completes exactly when the worker waits
  in its receive. While the worker is inside a launch the send cannot complete, so
  \<^verbatim>\<open>HandleURL\<close> and the notifier that called it are blocked; once that launch has
  returned the send can complete.
\<close>

theorem handoff_is_rendezvous:
  "run L config urlListener_cap sched (init urls) = Some s \<longrightarrow>
     urlListener s = []
   \<and> ((\<exists>s'. step L config urlListener_cap Send s = Some s')
        \<longleftrightarrow> pending s \<noteq> [] \<and> worker s = None)
   \<and> (worker s = Some u \<and> pending s \<noteq> [] \<longrightarrow>
        step L config urlListener_cap Send s = None
        \<and> (\<exists>s1 s2. step L config urlListener_cap Finish s = Some s1
              \<and> step L config urlListener_cap Send s1 = Some s2))"
proof (intro impI conjI)
  assume r: "run L config urlListener_cap sched (init urls) = Some s"
  from reachable_unbuffered[OF r] show b: "urlListener s = []" .
  from b show "(\<exists>s'. step L config urlListener_cap Send s = Some s')
        \<longleftrightarrow> pending s \<noteq> [] \<and> worker s = None"
    by (rule Send_enabled_unbuffered)
  {
    assume w: "worker s = Some u \<and> pending s \<noteq> []"
    with b show "step L config urlListener_cap Send s = None"
      by (simp add: Send_blocked_unbuffered)
    let ?s1 = "s\<lparr>worker := None, trace := trace s @ processURL_end L u config\<rparr>"
    have 1: "step L config urlListener_cap Finish s = Some ?s1"
      using w by (simp add: Finish_enabled)
    have "\<exists>s2. step L config urlListener_cap Send ?s1 = Some s2"
      using w b Send_enabled_unbuffered[of ?s1 L config] by simp
    with 1 show "\<exists>s1 s2. step L config urlListener_cap Finish s = Some s1
              \<and> step L config urlListener_cap Send s1 = Some s2"
      by blast
  }
qed

theorem handoff_is_rendezvous_witness:
  "run sample_ext sample_config urlListener_cap [Send] (init [''ok'', ''later'']) = Some sample_busy
   \<and> worker sample_busy = Some ''ok''
   \<and> pending sample_busy \<noteq> []
   \<and> urlListener sample_busy = []
   \<and> step sample_ext sample_config urlListener_cap Send sample_busy = None
   \<and> (\<exists>s1 s2. step sample_ext sample_config urlListener_cap Finish sample_busy = Some s1
          \<and> step sample_ext sample_config urlListener_cap Send s1 = Some s2)"
proof -
  have f: "worker sample_busy = Some ''ok''" "pending sample_busy \<noteq> []"
    by (simp_all add: sample_busy_def)
  from handoff_is_rendezvous [of sample_ext sample_config "[Send]" "[''ok'', ''later'']"
      sample_busy "''ok''"] sample_run_busy f
  have "urlListener sample_busy = []
    \<and> step sample_ext sample_config urlListener_cap Send sample_busy = None
    \<and> (\<exists>s1 s2. step sample_ext sample_config urlListener_cap Finish sample_busy = Some s1
          \<and> step sample_ext sample_config urlListener_cap Send s1 = Some s2)"
    by blast
  with f sample_run_busy show ?thesis by simp
qed

text \<open>
  C9 as stated lets every hand-off complete whatever the worker is doing. With the URLs
  \<^verbatim>\<open>ok\<close> and \<^verbatim>\<open>later\<close>: after the first send the worker is launching \<^verbatim>\<open>ok\<close>, and
  the send of \<^verbatim>\<open>later\<close> cannot complete.
\<close>

theorem handoff_blocks_while_launching:
  "urlListener_cap = 0
   \<and> run sample_ext sample_config urlListener_cap [Send] (init [''ok'', ''later'']) = Some sample_busy
   \<and> worker sample_busy = Some ''ok''
   \<and> pending sample_busy = [''later'']
   \<and> step sample_ext sample_config urlListener_cap Send sample_busy = None
   \<and> run sample_ext sample_config urlListener_cap [Send, Send] (init [''ok'', ''later'']) = None"
proof -
  have 1: "step sample_ext sample_config urlListener_cap Send sample_busy = None"
    by (simp add: step_def sample_busy_def urlListener_cap_def)
  have 2: "run sample_ext sample_config urlListener_cap [Send, Send] (init [''ok'', ''later'']) = None"
  proof -
    have "step sample_ext sample_config urlListener_cap Send (init [''ok'', ''later'']) = Some sample_busy"
      using sample_run_busy by (simp split: option.splits)
    then show ?thesis by (simp add: 1)
  qed
  have 3: "worker sample_busy = Some ''ok''" "pending sample_busy = [''later'']"
    by (simp_all add: sample_busy_def)
  from 1 2 3 sample_run_busy show ?thesis by (simp add: urlListener_cap_def)
qed

end
